theory Spec2Isabelle
  imports Main "HOL-Library.Word" "HOL-Library.AList"
begin

section \<open>THREE.js ARToolKit integration (artoolkit.three.js)\<close>

text \<open>
  The file is glue between a scene graph (THREE) and a marker tracker (artoolkit).
  The model keeps the objects the file reads and writes: the two marker tables, the
  Object3D instances they refer to, the matrices of the tracker, the projection matrix
  of the scene camera, the renderer, and the callbacks of the initialisation.
\<close>

subsection \<open>Values, errors\<close>

text \<open>
  The file only copies matrix entries, it computes nothing with them. An entry of a
  Float32Array is modelled by its 32 bit pattern.
\<close>

type_synonym float32 = "32 word"

datatype js_error = RangeError | TypeError

text \<open>What a call evaluates to, as far as the file's return statements need it.\<close>

datatype js_value = Undefined | This

fun bind_err :: "js_error + 'a \<Rightarrow> ('a \<Rightarrow> js_error + 'b) \<Rightarrow> js_error + 'b" where
  "bind_err (Inl e) f = Inl e"
| "bind_err (Inr x) f = f x"

subsection \<open>THREE.Matrix4 and setFromArray\<close>

text \<open>
  \<open>TypedArray.prototype.set(source)\<close> with offset 0: a source longer than the target
  raises RangeError; otherwise the source overwrites the front of the target. The call
  evaluates to \<open>undefined\<close>.
\<close>

definition Float32Array_set :: "float32 list \<Rightarrow> float32 list \<Rightarrow> js_error + (js_value \<times> float32 list)" where
  "Float32Array_set target source =
     (if length source > length target then Inl RangeError
      else Inr (Undefined, source @ drop (length source) target))"

record matrix4 =
  elements :: "float32 list"

text \<open>
  \<^verbatim>\<open>THREE.Matrix4.prototype.setFromArray = function(m) { return this.elements.set(m); };\<close>
  The result is the value of the call together with the updated receiver.
\<close>

definition setFromArray :: "float32 list \<Rightarrow> matrix4 \<Rightarrow> js_error + (js_value \<times> matrix4)" where
  "setFromArray m this =
     (case Float32Array_set (elements this) m of
        Inl e \<Rightarrow> Inl e
      | Inr (v, els) \<Rightarrow> Inr (v, this\<lparr>elements := els\<rparr>))"

subsection \<open>Object3D instances and the marker tables\<close>

type_synonym addr = nat

record object3d =
  matrix :: matrix4
  visible :: bool
  matrixAutoUpdate :: bool

definition f32_one :: float32 where
  "f32_one = 0x3F800000"

definition identity_elements :: "float32 list" where
  "identity_elements =
     [f32_one, 0, 0, 0,  0, f32_one, 0, 0,  0, 0, f32_one, 0,  0, 0, 0, f32_one]"

text \<open>
  \<open>new THREE.Object3D()\<close>: the constructor of the scene graph library gives the
  object an identity matrix, \<open>visible = true\<close> and \<open>matrixAutoUpdate = true\<close>.
\<close>

definition new_Object3D :: object3d where
  "new_Object3D = \<lparr>matrix = \<lparr>elements = identity_elements\<rparr>, visible = True, matrixAutoUpdate = True\<rparr>"

text \<open>
  A marker report of the tracker; the file reads only these two fields of it.
\<close>

record marker =
  idPatt :: int
  idMatrix :: int

text \<open>
  The state the file works on. The tables \<open>artoolkit.patternMarkers\<close> and
  \<open>artoolkit.barcodeMarkers\<close> are objects used as dictionaries from marker UID to a
  reference to an Object3D: association lists from the UID to the address of the object,
  read with \<open>map_of\<close> and written with \<open>AList.update\<close>. The objects live in \<open>heap\<close>;
  \<open>next_addr\<close> is the address the next \<open>new\<close> returns. \<open>transformationMatrix\<close> and
  \<open>cameraMatrix\<close> are what \<open>artoolkit.getTransformationMatrix()\<close> and
  \<open>artoolkit.getCameraMatrix()\<close> return. \<open>camera_projectionMatrix\<close> is
  \<open>camera.projectionMatrix\<close> of the camera made by \<open>artoolkit.createThreeScene\<close>.
\<close>

record ar_state =
  patternMarkers :: "(int \<times> addr) list"
  barcodeMarkers :: "(int \<times> addr) list"
  heap :: "addr \<Rightarrow> object3d"
  next_addr :: addr
  transformationMatrix :: "float32 list"
  cameraMatrix :: "float32 list"
  camera_projectionMatrix :: matrix4

definition getTransformationMatrix :: "ar_state \<Rightarrow> float32 list" where
  "getTransformationMatrix s = transformationMatrix s"

definition getCameraMatrix :: "ar_state \<Rightarrow> float32 list" where
  "getCameraMatrix s = cameraMatrix s"

text \<open>
  The body of both branches of \<open>artoolkit.onGetMarker\<close>:
  \<^verbatim>\<open>obj.matrix.setFromArray(artoolkit.getTransformationMatrix()); obj.visible = true;\<close>
\<close>

definition show_marker :: "addr \<Rightarrow> ar_state \<Rightarrow> js_error + ar_state" where
  "show_marker obj s =
     (case setFromArray (getTransformationMatrix s) (matrix (heap s obj)) of
        Inl e \<Rightarrow> Inl e
      | Inr (_, m) \<Rightarrow>
          (let s1 = s\<lparr>heap := (heap s)(obj := (heap s obj)\<lparr>matrix := m\<rparr>)\<rparr>
           in Inr (s1\<lparr>heap := (heap s1)(obj := (heap s1 obj)\<lparr>visible := True\<rparr>)\<rparr>)))"

text \<open>
  \<^verbatim>\<open>
  artoolkit.onGetMarker = function(marker) {
    var obj = this.patternMarkers[marker.idPatt];
    if (obj) { ... }
    var obj = this.barcodeMarkers[marker.idMatrix];
    if (obj) { ... }
  };
  \<close>
  A key that is not in the table reads as \<open>undefined\<close>, which is falsy; a stored object
  is truthy.
\<close>

definition onGetMarker :: "marker \<Rightarrow> ar_state \<Rightarrow> js_error + ar_state" where
  "onGetMarker mk s =
     bind_err
       (case map_of (patternMarkers s) (idPatt mk) of
          None \<Rightarrow> Inr s
        | Some obj \<Rightarrow> show_marker obj s)
       (\<lambda>s1. case map_of (barcodeMarkers s1) (idMatrix mk) of
          None \<Rightarrow> Inr s1
        | Some obj \<Rightarrow> show_marker obj s1)"

text \<open>
  \<^verbatim>\<open>
  artoolkit.createThreeMarker = function(markerUID) {
    var obj = new THREE.Object3D();
    obj.matrixAutoUpdate = false;
    this.patternMarkers[markerUID] = obj;
    return obj;
  };
  \<close>
\<close>

definition alloc_Object3D :: "ar_state \<Rightarrow> addr \<times> ar_state" where
  "alloc_Object3D s =
     (next_addr s, s\<lparr>heap := (heap s)(next_addr s := new_Object3D), next_addr := Suc (next_addr s)\<rparr>)"

definition createThreeMarker :: "int \<Rightarrow> ar_state \<Rightarrow> addr \<times> ar_state" where
  "createThreeMarker markerUID s =
     (let (obj, s1) = alloc_Object3D s;
          s2 = s1\<lparr>heap := (heap s1)(obj := (heap s1 obj)\<lparr>matrixAutoUpdate := False\<rparr>)\<rparr>;
          s3 = s2\<lparr>patternMarkers := AList.update markerUID obj (patternMarkers s2)\<rparr>
      in (obj, s3))"

definition createThreeBarcodeMarker :: "int \<Rightarrow> ar_state \<Rightarrow> addr \<times> ar_state" where
  "createThreeBarcodeMarker markerUID s =
     (let (obj, s1) = alloc_Object3D s;
          s2 = s1\<lparr>heap := (heap s1)(obj := (heap s1 obj)\<lparr>matrixAutoUpdate := False\<rparr>)\<rparr>;
          s3 = s2\<lparr>barcodeMarkers := AList.update markerUID obj (barcodeMarkers s2)\<rparr>
      in (obj, s3))"

subsection \<open>The frame loop: process\<close>

text \<open>
  \<^verbatim>\<open>for (var i in table) { table[i].visible = false; }\<close>
  The loop visits every key of the table once.
\<close>

fun hide_markers :: "(int \<times> addr) list \<Rightarrow> (addr \<Rightarrow> object3d) \<Rightarrow> (addr \<Rightarrow> object3d)" where
  "hide_markers [] h = h"
| "hide_markers ((i, obj) # table) h = hide_markers table (h(obj := (h obj)\<lparr>visible := False\<rparr>))"

text \<open>
  What the tracker finds in one video frame: for each detected marker its report and the
  pose matrix that \<open>artoolkit.getTransformationMatrix()\<close> returns while the report is
  handled.
\<close>

record detection =
  det_marker :: marker
  det_pose :: "float32 list"

text \<open>
  Modelled from the spec: \<open>artoolkit.process(video)\<close> belongs to the tracker's API and is
  not part of this file. The tracker is fed the frame and the file reads back per-marker
  pose matrices: for every marker the tracker detects in the frame, in turn, the
  marker's pose becomes the current transformation matrix and \<open>artoolkit.onGetMarker\<close>
  is called with the report. The detections of the current frame are a parameter.
\<close>

fun artoolkit_process :: "detection list \<Rightarrow> ar_state \<Rightarrow> js_error + ar_state" where
  "artoolkit_process [] s = Inr s"
| "artoolkit_process (d # ds) s =
     bind_err (onGetMarker (det_marker d) (s\<lparr>transformationMatrix := det_pose d\<rparr>))
       (artoolkit_process ds)"

text \<open>
  \<^verbatim>\<open>
  process: function() {
    for (var i in artoolkit.patternMarkers) { artoolkit.patternMarkers[i].visible = false; }
    for (var i in artoolkit.barcodeMarkers) { artoolkit.barcodeMarkers[i].visible = false; }
    artoolkit.process(video);
    camera.projectionMatrix.setFromArray(artoolkit.getCameraMatrix());
  }
  \<close>
  \<open>hide_all\<close> is the state after the two loops.
\<close>

definition hide_all :: "ar_state \<Rightarrow> ar_state" where
  "hide_all s =
     (let s1 = s\<lparr>heap := hide_markers (patternMarkers s) (heap s)\<rparr>
      in s1\<lparr>heap := hide_markers (barcodeMarkers s1) (heap s1)\<rparr>)"

definition set_projection :: "ar_state \<Rightarrow> js_error + ar_state" where
  "set_projection s =
     (case setFromArray (getCameraMatrix s) (camera_projectionMatrix s) of
        Inl e \<Rightarrow> Inl e
      | Inr (_, m) \<Rightarrow> Inr (s\<lparr>camera_projectionMatrix := m\<rparr>))"

definition process :: "detection list \<Rightarrow> ar_state \<Rightarrow> js_error + ar_state" where
  "process frame s = bind_err (artoolkit_process frame (hide_all s)) set_projection"

subsection \<open>The scene object and renderOn\<close>

text \<open>
  References to the objects of the scene graph library that \<open>artoolkit.createThreeScene\<close>
  makes, and to any other object of the application.
\<close>

datatype three_object = Scene | VideoScene | Camera | VideoCamera | Video | Other nat

text \<open>
  The fields of the ThreeARScene object that \<open>artoolkit.createThreeScene\<close> returns,
  and \<open>videoTex.needsUpdate\<close> of the texture its closures share.
\<close>

record three_ar_scene =
  scene :: three_object
  videoScene :: three_object
  camera :: three_object
  videoCamera :: three_object
  video :: three_object
  videoTex_needsUpdate :: bool

text \<open>
  \<^verbatim>\<open>return { scene: scene, videoScene: videoScene, camera: camera, videoCamera: videoCamera,
           video: video, process: ..., renderOn: ... };\<close>
  The texture, the plane, the two scenes and the two cameras are objects of the scene graph
  library that the function constructs; the model keeps which object is which. \<open>process\<close>
  and \<open>renderOn\<close> are the functions of the same names above and below.
\<close>

definition createThreeScene :: "three_object \<Rightarrow> three_ar_scene" where
  "createThreeScene v =
     \<lparr>scene = Scene, videoScene = VideoScene, camera = Camera, videoCamera = VideoCamera,
      video = v, videoTex_needsUpdate = False\<rparr>"

text \<open>
  THREE.WebGLRenderer, as far as \<open>renderOn\<close> uses it. \<open>calls\<close> is the sequence of
  calls made on the renderer. \<open>framebuffer\<close> lists what has been drawn since the
  buffers were last cleared: \<open>clear()\<close> empties it, and \<open>render(scene, camera)\<close>
  clears first when \<open>autoClear\<close> is set and then draws on top.
\<close>

datatype renderer_call = Clear | Render three_object three_object

record renderer =
  autoClear :: bool
  framebuffer :: "(three_object \<times> three_object) list"
  calls :: "renderer_call list"

definition renderer_clear :: "renderer \<Rightarrow> renderer" where
  "renderer_clear r = r\<lparr>framebuffer := [], calls := calls r @ [Clear]\<rparr>"

definition renderer_render :: "three_object \<Rightarrow> three_object \<Rightarrow> renderer \<Rightarrow> renderer" where
  "renderer_render sc cam r =
     r\<lparr>framebuffer := (if autoClear r then [] else framebuffer r) @ [(sc, cam)],
       calls := calls r @ [Render sc cam]\<rparr>"

text \<open>
  \<^verbatim>\<open>
  renderOn: function(renderer) {
    videoTex.needsUpdate = true;
    var ac = renderer.autoClear;
    renderer.autoClear = false;
    renderer.clear();
    renderer.render(this.videoScene, this.videoCamera);
    renderer.render(this.scene, this.camera);
    renderer.autoClear = ac;
  }
  \<close>
\<close>

definition renderOn :: "three_ar_scene \<Rightarrow> renderer \<Rightarrow> three_ar_scene \<times> renderer" where
  "renderOn this r =
     (let this1 = this\<lparr>videoTex_needsUpdate := True\<rparr>;
          ac = autoClear r;
          r1 = r\<lparr>autoClear := False\<rparr>;
          r2 = renderer_clear r1;
          r3 = renderer_render (videoScene this1) (videoCamera this1) r2;
          r4 = renderer_render (scene this1) (camera this1) r3;
          r5 = r4\<lparr>autoClear := ac\<rparr>
      in (this1, r5))"

subsection \<open>Initialisation: getUserMediaThreeScene\<close>

text \<open>A function value of the browser, known by an identifier.\<close>

type_synonym js_function = nat

record navigator =
  getUserMedia :: "js_function option"
  webkitGetUserMedia :: "js_function option"
  mozGetUserMedia :: "js_function option"
  msGetUserMedia :: "js_function option"

text \<open>\<open>a || b\<close> on values that are a function or \<open>undefined\<close>.\<close>

definition js_or :: "'a option \<Rightarrow> 'a option \<Rightarrow> 'a option" where
  "js_or a b = (case a of Some x \<Rightarrow> Some x | None \<Rightarrow> b)"

record constraints =
  audio :: bool
  maxWidth :: int
  maxHeight :: int

text \<open>
  The error callback in use: the caller's, or the logging function the file puts in
  its place.
\<close>

datatype handler = User_onError | Default_onError

text \<open>What the initialisation does to the world around it, in order.\<close>

datatype action =
    Artoolkit_init string string
  | CreateElement string
  | Navigator_getUserMedia js_function constraints
  | OnError string
  | Console_log string
  | Video_addEventListener string
  | Video_set_src
  | Video_play
  | Artoolkit_onReady
  | Artoolkit_setup int int
  | Artoolkit_createThreeScene
  | OnSuccess three_ar_scene

text \<open>
  The variables of the closure of \<open>artoolkit.getUserMediaThreeScene\<close>, and which of its
  functions have been handed out as callbacks: \<open>gum_callbacks\<close> when \<open>success\<close> and
  \<open>onError\<close> were passed to \<open>navigator.getUserMedia\<close>, \<open>loadedmetadata_listener\<close>
  when \<open>initProgress\<close> listens on the video element, \<open>onReady_callback\<close> when
  \<open>initProgress\<close> was passed to \<open>artoolkit.onReady\<close>.
\<close>

record init_state =
  nav :: navigator
  onError :: handler
  videoWidth :: int
  videoHeight :: int
  initWaitCount :: int
  gum_callbacks :: bool
  loadedmetadata_listener :: bool
  onReady_callback :: bool
  log :: "action list"

definition call_onError :: "string \<Rightarrow> init_state \<Rightarrow> init_state" where
  "call_onError err s =
     (case onError s of
        User_onError \<Rightarrow> s\<lparr>log := log s @ [OnError err]\<rparr>
      | Default_onError \<Rightarrow>
          s\<lparr>log := log s @ [Console_log ''ERROR: artoolkit.getUserMediaThreeScene'', Console_log err]\<rparr>)"

text \<open>
  \<^verbatim>\<open>
  var completeInit = function() {
    artoolkit.setup(video.videoWidth, video.videoHeight);
    var scenes = artoolkit.createThreeScene(video);
    onSuccess(scenes);
  };
  \<close>
\<close>

definition completeInit :: "init_state \<Rightarrow> init_state" where
  "completeInit s =
     s\<lparr>log := log s @ [Artoolkit_setup (videoWidth s) (videoHeight s),
                        Artoolkit_createThreeScene,
                        OnSuccess (createThreeScene Video)]\<rparr>"

text \<open>
  \<^verbatim>\<open>
  var initWaitCount = 2;
  var initProgress = function() {
    initWaitCount--;
    if (initWaitCount === 0) { completeInit(); }
  };
  \<close>
\<close>

definition initProgress :: "init_state \<Rightarrow> init_state" where
  "initProgress s =
     (let s1 = s\<lparr>initWaitCount := initWaitCount s - 1\<rparr>
      in if initWaitCount s1 = 0 then completeInit s1 else s1)"

text \<open>
  \<^verbatim>\<open>
  var success = function(stream) {
    video.addEventListener('loadedmetadata', initProgress, false);
    video.src = window.URL.createObjectURL(stream);
    video.play();
    artoolkit.onReady(initProgress);
  };
  \<close>
\<close>

definition success :: "init_state \<Rightarrow> init_state" where
  "success s =
     s\<lparr>loadedmetadata_listener := True,
       onReady_callback := True,
       log := log s @ [Video_addEventListener ''loadedmetadata'', Video_set_src, Video_play,
                       Artoolkit_onReady]\<rparr>"

text \<open>
  \<open>artoolkit.getUserMediaThreeScene(width, height, onSuccess, onError)\<close>, up to its
  return. \<open>onError\<close> is \<open>None\<close> when the caller passes none. \<open>vw\<close> and \<open>vh\<close> are
  the dimensions the video element reports when \<open>completeInit\<close> reads them.
\<close>

definition getUserMediaThreeScene ::
  "navigator \<Rightarrow> int \<Rightarrow> int \<Rightarrow> handler option \<Rightarrow> int \<Rightarrow> int \<Rightarrow> init_state" where
  "getUserMediaThreeScene n width height onErr vw vh =
     (let log0 = [Artoolkit_init ''../../builds'' ''../../bin/Data/camera_para.dat''];
          onError1 = (case onErr of None \<Rightarrow> Default_onError | Some h \<Rightarrow> h);
          log1 = log0 @ [CreateElement ''video''];
          n1 = n\<lparr>getUserMedia :=
                   js_or (js_or (js_or (getUserMedia n) (webkitGetUserMedia n)) (mozGetUserMedia n))
                     (msGetUserMedia n)\<rparr>;
          hdConstraints = \<lparr>audio = False, maxWidth = width, maxHeight = height\<rparr>;
          s = \<lparr>nav = n1, onError = onError1, videoWidth = vw, videoHeight = vh,
               initWaitCount = 2, gum_callbacks = False, loadedmetadata_listener = False,
               onReady_callback = False, log = log1\<rparr>
      in case getUserMedia n1 of
           Some f \<Rightarrow> s\<lparr>gum_callbacks := True, log := log s @ [Navigator_getUserMedia f hdConstraints]\<rparr>
         | None \<Rightarrow> call_onError [] s)"

text \<open>
  What can happen after the call returns: the browser answers the camera request by
  calling \<open>success\<close> or \<open>onError\<close>, the video element fires \<open>loadedmetadata\<close>, the
  tracker calls the function given to \<open>artoolkit.onReady\<close>. An event reaches only a
  function that has been handed out. The flags record that a function has been handed
  out, not how often.
\<close>

datatype event = GumSuccess | GumError string | LoadedMetadata | TrackerReady

fun fire :: "event \<Rightarrow> init_state \<Rightarrow> init_state" where
  "fire GumSuccess s = (if gum_callbacks s then success s else s)"
| "fire (GumError err) s = (if gum_callbacks s then call_onError err s else s)"
| "fire LoadedMetadata s = (if loadedmetadata_listener s then initProgress s else s)"
| "fire TrackerReady s = (if onReady_callback s then initProgress s else s)"

fun run :: "event list \<Rightarrow> init_state \<Rightarrow> init_state" where
  "run [] s = s"
| "run (e # es) s = run es (fire e s)"

fun is_OnSuccess :: "action \<Rightarrow> bool" where
  "is_OnSuccess (OnSuccess sc) = True"
| "is_OnSuccess a = False"

text \<open>How many times \<open>onSuccess\<close> has been called.\<close>

definition onSuccess_calls :: "init_state \<Rightarrow> nat" where
  "onSuccess_calls s = length (filter is_OnSuccess (log s))"

text \<open>The events that follow the browser's grant of the camera stream.\<close>

fun after_grant :: "event list \<Rightarrow> event list" where
  "after_grant [] = []"
| "after_grant (e # es) = (if e = GumSuccess then es else after_grant es)"

subsection \<open>Well-formed states\<close>

text \<open>The objects the two tables refer to, with repetitions.\<close>

definition registered :: "ar_state \<Rightarrow> addr list" where
  "registered s = map snd (patternMarkers s) @ map snd (barcodeMarkers s)"

text \<open>Every registered object has a matrix of 16 entries, as THREE.Matrix4 has.\<close>

definition matrices_ok :: "ar_state \<Rightarrow> bool" where
  "matrices_ok s = list_all (\<lambda>obj. length (elements (matrix (heap s obj))) = 16) (registered s)"

text \<open>
  The states that the functions of the file build: a table has each key once, no object
  is stored twice, and every stored object has been allocated.
\<close>

definition wf_state :: "ar_state \<Rightarrow> bool" where
  "wf_state s \<longleftrightarrow>
     distinct (map fst (patternMarkers s)) \<and>
     distinct (map fst (barcodeMarkers s)) \<and>
     distinct (registered s) \<and>
     list_all (\<lambda>obj. obj < next_addr s) (registered s) \<and>
     matrices_ok s"

definition poses_ok :: "detection list \<Rightarrow> bool" where
  "poses_ok frame = list_all (\<lambda>d. length (det_pose d) = 16) frame"

definition camera_ok :: "ar_state \<Rightarrow> bool" where
  "camera_ok s \<longleftrightarrow> length (cameraMatrix s) = 16 \<and> length (elements (camera_projectionMatrix s)) = 16"

text \<open>
  The state when the file has been loaded: \<open>artoolkit.patternMarkers = {}\<close> and
  \<open>artoolkit.barcodeMarkers = {}\<close>. The camera matrix of the tracker is a parameter.
\<close>

definition start_state :: "float32 list \<Rightarrow> ar_state" where
  "start_state cam =
     \<lparr>patternMarkers = [], barcodeMarkers = [], heap = (\<lambda>a. new_Object3D), next_addr = 0,
      transformationMatrix = identity_elements, cameraMatrix = cam,
      camera_projectionMatrix = \<lparr>elements = identity_elements\<rparr>\<rparr>"


subsection \<open>Auxiliary notions for the proofs\<close>

text \<open>An object after the two assignments of \<open>onGetMarker\<close>, with pose \<open>t\<close>.\<close>

definition shown :: "float32 list \<Rightarrow> object3d \<Rightarrow> object3d" where
  "shown t ob = ob\<lparr>matrix := (matrix ob)\<lparr>elements := t\<rparr>, visible := True\<rparr>"

text \<open>
  The second state has the tables, the allocation pointer and the camera data of the
  first.
\<close>

definition same_tables :: "ar_state \<Rightarrow> ar_state \<Rightarrow> bool" where
  "same_tables s s' \<longleftrightarrow>
     patternMarkers s' = patternMarkers s \<and> barcodeMarkers s' = barcodeMarkers s \<and>
     next_addr s' = next_addr s \<and> cameraMatrix s' = cameraMatrix s \<and>
     camera_projectionMatrix s' = camera_projectionMatrix s"

text \<open>
  Heap \<open>h'\<close> differs from \<open>h\<close> at most in the matrix and the visible flag of the objects
  in \<open>reg\<close>.
\<close>

definition pose_update_only :: "addr list \<Rightarrow> (addr \<Rightarrow> object3d) \<Rightarrow> (addr \<Rightarrow> object3d) \<Rightarrow> bool" where
  "pose_update_only reg h h' \<longleftrightarrow>
     (\<forall>a. (\<exists>m v. h' a = (h a)\<lparr>matrix := m, visible := v\<rparr>) \<and> (a \<notin> set reg \<longrightarrow> h' a = h a))"

text \<open>
  A state of a running application: a pattern marker registered under UID 5, a barcode
  marker under UID 7, both hidden.
\<close>

definition demo_state :: ar_state where
  "demo_state =
     hide_all (snd (createThreeBarcodeMarker 7 (snd (createThreeMarker 5 (start_state identity_elements)))))"

definition demo_pose :: "float32 list" where
  "demo_pose = [0, f32_one, 0, 0,  f32_one, 0, 0, 0,  0, 0, f32_one, 0,  0, 0, 0, f32_one]"

text \<open>One frame in which the tracker reports pattern 5.\<close>

definition demo_frame :: "detection list" where
  "demo_frame = [\<lparr>det_marker = \<lparr>idPatt = 5, idMatrix = -1\<rparr>, det_pose = demo_pose\<rparr>]"

text \<open>The operations of the file on the marker tables.\<close>

datatype operation =
    Op_createThreeMarker int
  | Op_createThreeBarcodeMarker int
  | Op_onGetMarker marker
  | Op_process "detection list"

fun exec :: "operation \<Rightarrow> ar_state \<Rightarrow> js_error + ar_state" where
  "exec (Op_createThreeMarker uid) s = Inr (snd (createThreeMarker uid s))"
| "exec (Op_createThreeBarcodeMarker uid) s = Inr (snd (createThreeBarcodeMarker uid s))"
| "exec (Op_onGetMarker mk) s = onGetMarker mk s"
| "exec (Op_process frame) s = process frame s"

text \<open>The calls that \<open>completeInit\<close> makes, and those of them that have been made.\<close>

fun of_completeInit :: "action \<Rightarrow> bool" where
  "of_completeInit (Artoolkit_setup w h) = True"
| "of_completeInit Artoolkit_createThreeScene = True"
| "of_completeInit (OnSuccess sc) = True"
| "of_completeInit a = False"

definition completion :: "init_state \<Rightarrow> action list" where
  "completion s = filter of_completeInit (log s)"

text \<open>How many of the events call \<open>initProgress\<close> once it is registered for both.\<close>

definition initProgress_calls :: "event list \<Rightarrow> nat" where
  "initProgress_calls es = length (filter (\<lambda>e. e = LoadedMetadata \<or> e = TrackerReady) es)"

definition completeInit_actions :: "init_state \<Rightarrow> action list" where
  "completeInit_actions s =
     [Artoolkit_setup (videoWidth s) (videoHeight s), Artoolkit_createThreeScene,
      OnSuccess (createThreeScene Video)]"

text \<open>The value of \<open>navigator.getUserMedia\<close> after the chain of \<open>||\<close>.\<close>

definition gum_of :: "navigator \<Rightarrow> js_function option" where
  "gum_of n = js_or (js_or (js_or (getUserMedia n) (webkitGetUserMedia n)) (mozGetUserMedia n)) (msGetUserMedia n)"

text \<open>A browser with the webkit-prefixed function only, and one with none.\<close>

definition demo_navigator :: navigator where
  "demo_navigator =
     \<lparr>getUserMedia = None, webkitGetUserMedia = Some 3, mozGetUserMedia = None, msGetUserMedia = None\<rparr>"

definition no_navigator :: navigator where
  "no_navigator =
     \<lparr>getUserMedia = None, webkitGetUserMedia = None, mozGetUserMedia = None, msGetUserMedia = None\<rparr>"

text \<open>A sequence of operations, stopping at the first that raises.\<close>

fun exec_all :: "operation list \<Rightarrow> ar_state \<Rightarrow> js_error + ar_state" where
  "exec_all [] s = Inr s"
| "exec_all (opn # ops) s = bind_err (exec opn s) (exec_all ops)"

section \<open>Properties\<close>

subsection \<open>Matrices and single reports\<close>

lemma bind_err_Inr: "bind_err x f = Inr y \<longleftrightarrow> (\<exists>z. x = Inr z \<and> f z = Inr y)"
  by (cases x) auto

lemma setFromArray_16:
  "length (elements this) = 16 \<Longrightarrow> length a = 16 \<Longrightarrow>
   setFromArray a this = Inr (Undefined, this\<lparr>elements := a\<rparr>)"
  by (simp add: setFromArray_def Float32Array_set_def)

lemma show_marker_16:
  "length (transformationMatrix s) = 16 \<Longrightarrow> length (elements (matrix (heap s obj))) = 16 \<Longrightarrow>
   show_marker obj s =
     Inr (s\<lparr>heap := (heap s)(obj := (heap s obj)\<lparr>matrix := (matrix (heap s obj))\<lparr>elements := transformationMatrix s\<rparr>, visible := True\<rparr>)\<rparr>)"
  by (simp add: show_marker_def getTransformationMatrix_def setFromArray_16 Let_def)

text \<open>Whatever the lengths, a call that returns has changed one object only.\<close>

lemma show_marker_Inr:
  assumes "show_marker obj s = Inr s'"
  shows "\<exists>m. s' = s\<lparr>heap := (heap s)(obj := (heap s obj)\<lparr>matrix := m, visible := True\<rparr>)\<rparr>"
  using assms
  by (auto simp: show_marker_def Let_def setFromArray_def Float32Array_set_def split: if_splits)

lemma onGetMarker_Inr:
  assumes "onGetMarker mk s = Inr s'"
  shows "patternMarkers s' = patternMarkers s \<and> barcodeMarkers s' = barcodeMarkers s \<and>
         next_addr s' = next_addr s \<and> transformationMatrix s' = transformationMatrix s \<and>
         cameraMatrix s' = cameraMatrix s \<and> camera_projectionMatrix s' = camera_projectionMatrix s"
  using assms
  by (auto simp: onGetMarker_def bind_err_Inr split: option.splits dest!: show_marker_Inr)


lemma matrices_ok_lookup:
  assumes "matrices_ok s"
    and "map_of (patternMarkers s) k = Some a \<or> map_of (barcodeMarkers s) k = Some a"
  shows "length (elements (matrix (heap s a))) = 16"
  using assms
  by (force simp: matrices_ok_def registered_def list_all_iff dest!: map_of_SomeD)

lemma show_marker_shown:
  "length (transformationMatrix s) = 16 \<Longrightarrow> length (elements (matrix (heap s obj))) = 16 \<Longrightarrow>
   show_marker obj s = Inr (s\<lparr>heap := (heap s)(obj := shown (transformationMatrix s) (heap s obj))\<rparr>)"
  by (simp add: show_marker_16 shown_def)

lemma onGetMarker_heap:
  assumes "matrices_ok s" and "length (transformationMatrix s) = 16"
  shows "\<exists>s'. onGetMarker mk s = Inr s' \<and>
     (\<forall>a. heap s' a =
        (if map_of (patternMarkers s) (idPatt mk) = Some a \<or>
            map_of (barcodeMarkers s) (idMatrix mk) = Some a
         then shown (transformationMatrix s) (heap s a)
         else heap s a))"
proof (cases "map_of (patternMarkers s) (idPatt mk)")
  case None
  show ?thesis
  proof (cases "map_of (barcodeMarkers s) (idMatrix mk)")
    case N2: None
    with None show ?thesis by (simp add: onGetMarker_def)
  next
    case (Some b)
    then have "length (elements (matrix (heap s b))) = 16"
      using matrices_ok_lookup[OF assms(1)] by blast
    with None Some assms(2) show ?thesis
      by (simp add: onGetMarker_def show_marker_shown)
  qed
next
  case (Some p)
  then have lp: "length (elements (matrix (heap s p))) = 16"
    using matrices_ok_lookup[OF assms(1)] by blast
  define s1 where "s1 = s\<lparr>heap := (heap s)(p := shown (transformationMatrix s) (heap s p))\<rparr>"
  have sp: "show_marker p s = Inr s1"
    using lp assms(2) by (simp add: show_marker_shown s1_def)
  show ?thesis
  proof (cases "map_of (barcodeMarkers s) (idMatrix mk)")
    case None
    with Some sp show ?thesis by (simp add: onGetMarker_def s1_def)
  next
    case B: (Some b)
    then have "length (elements (matrix (heap s b))) = 16"
      using matrices_ok_lookup[OF assms(1)] by blast
    then have lb: "length (elements (matrix (heap s1 b))) = 16"
      using assms(2) by (simp add: s1_def shown_def)
    have "show_marker b s1 = Inr (s1\<lparr>heap := (heap s1)(b := shown (transformationMatrix s1) (heap s1 b))\<rparr>)"
      using lb assms(2) by (simp add: show_marker_shown s1_def)
    with Some B sp show ?thesis
      by (simp add: onGetMarker_def s1_def shown_def)
  qed
qed


lemma hide_markers_apply:
  "hide_markers table h a = (if a \<in> snd ` set table then (h a)\<lparr>visible := False\<rparr> else h a)"
proof (induction table arbitrary: h)
  case Nil
  show ?case by simp
next
  case (Cons p table)
  obtain i obj where p: "p = (i, obj)" by (cases p)
  show ?case
    unfolding p hide_markers.simps Cons.IH
    by (cases "a = obj") auto
qed

lemma hide_all_heap:
  "heap (hide_all s) a = (if a \<in> set (registered s) then (heap s a)\<lparr>visible := False\<rparr> else heap s a)"
  by (simp add: hide_all_def Let_def hide_markers_apply registered_def)

lemma hide_all_fields:
  "patternMarkers (hide_all s) = patternMarkers s"
  "barcodeMarkers (hide_all s) = barcodeMarkers s"
  "next_addr (hide_all s) = next_addr s"
  "transformationMatrix (hide_all s) = transformationMatrix s"
  "cameraMatrix (hide_all s) = cameraMatrix s"
  "camera_projectionMatrix (hide_all s) = camera_projectionMatrix s"
  by (simp_all add: hide_all_def Let_def)

lemma registered_hide_all: "registered (hide_all s) = registered s"
  by (simp add: registered_def hide_all_fields)

lemma matrices_ok_hide_all: "matrices_ok (hide_all s) = matrices_ok s"
  by (simp add: matrices_ok_def registered_hide_all hide_all_heap list_all_iff)

lemma wf_state_hide_all: "wf_state (hide_all s) = wf_state s"
  by (simp add: wf_state_def matrices_ok_hide_all registered_hide_all hide_all_fields)

lemma onGetMarker_matrices_ok:
  assumes "matrices_ok s" "length (transformationMatrix s) = 16" "onGetMarker mk s = Inr s'"
  shows "matrices_ok s'"
proof -
  from onGetMarker_heap[OF assms(1,2), of mk] assms(3)
  have h: "\<And>a. heap s' a =
        (if map_of (patternMarkers s) (idPatt mk) = Some a \<or>
            map_of (barcodeMarkers s) (idMatrix mk) = Some a
         then shown (transformationMatrix s) (heap s a)
         else heap s a)" by auto
  have r: "registered s' = registered s"
    using onGetMarker_Inr[OF assms(3)] by (simp add: registered_def)
  show ?thesis
    using assms(1,2) unfolding matrices_ok_def r list_all_iff
    by (auto simp: h shown_def)
qed

text \<open>In a well-formed state a key finds its own object and no other.\<close>

lemma wf_pattern_lookup:
  assumes "wf_state s" "(k, a) \<in> set (patternMarkers s)"
  shows "(map_of (patternMarkers s) k' = Some a \<or> map_of (barcodeMarkers s) k'' = Some a) \<longleftrightarrow> k' = k"
proof -
  have d1: "distinct (map fst (patternMarkers s))" and d2: "distinct (map snd (patternMarkers s))"
    and dj: "snd ` set (patternMarkers s) \<inter> snd ` set (barcodeMarkers s) = {}"
    using assms(1) by (auto simp: wf_state_def registered_def)
  have a: "map_of (patternMarkers s) k = Some a"
    using d1 assms(2) by simp
  have b: "map_of (barcodeMarkers s) k'' \<noteq> Some a"
    using dj assms(2) by (force dest!: map_of_SomeD)
  have c: "k' = k" if "map_of (patternMarkers s) k' = Some a"
  proof -
    from that have "(k', a) \<in> set (patternMarkers s)" by (rule map_of_SomeD)
    with assms(2) d2 show ?thesis
      by (metis distinct_map inj_on_def fst_conv snd_conv)
  qed
  show ?thesis using a b c by auto
qed


lemma wf_barcode_lookup:
  assumes "wf_state s" "(k, a) \<in> set (barcodeMarkers s)"
  shows "(map_of (patternMarkers s) k'' = Some a \<or> map_of (barcodeMarkers s) k' = Some a) \<longleftrightarrow> k' = k"
proof -
  have d1: "distinct (map fst (barcodeMarkers s))" and d2: "distinct (map snd (barcodeMarkers s))"
    and dj: "snd ` set (patternMarkers s) \<inter> snd ` set (barcodeMarkers s) = {}"
    using assms(1) by (auto simp: wf_state_def registered_def)
  have a: "map_of (barcodeMarkers s) k = Some a"
    using d1 assms(2) by simp
  have b: "map_of (patternMarkers s) k'' \<noteq> Some a"
    using dj assms(2) by (force dest!: map_of_SomeD)
  have c: "k' = k" if "map_of (barcodeMarkers s) k' = Some a"
  proof -
    from that have "(k', a) \<in> set (barcodeMarkers s)" by (rule map_of_SomeD)
    with assms(2) d2 show ?thesis
      by (metis distinct_map inj_on_def fst_conv snd_conv)
  qed
  show ?thesis using a b c by auto
qed

lemma lookup_registered:
  assumes "map_of (patternMarkers s) k = Some a \<or> map_of (barcodeMarkers s) k' = Some a"
  shows "a \<in> set (registered s)"
  using assms by (force simp: registered_def dest!: map_of_SomeD)

lemma same_tables_registered: "same_tables s s' \<Longrightarrow> registered s' = registered s"
  by (simp add: same_tables_def registered_def)

lemma same_tables_trans: "same_tables s s1 \<Longrightarrow> same_tables s1 s2 \<Longrightarrow> same_tables s s2"
  by (simp add: same_tables_def)

lemma wf_state_same_tables:
  "wf_state s \<Longrightarrow> same_tables s s' \<Longrightarrow> matrices_ok s' \<Longrightarrow> wf_state s'"
  by (simp add: wf_state_def same_tables_def registered_def)

lemma onGetMarker_step:
  assumes wf: "wf_state s" and len: "length pose = 16"
  shows "\<exists>s'. onGetMarker mk (s\<lparr>transformationMatrix := pose\<rparr>) = Inr s' \<and> wf_state s' \<and>
           same_tables s s' \<and>
           (\<forall>a. heap s' a =
              (if map_of (patternMarkers s) (idPatt mk) = Some a \<or>
                  map_of (barcodeMarkers s) (idMatrix mk) = Some a
               then shown pose (heap s a) else heap s a))"
proof -
  let ?s0 = "s\<lparr>transformationMatrix := pose\<rparr>"
  have m0: "matrices_ok ?s0"
    using wf by (simp add: wf_state_def matrices_ok_def registered_def)
  have l0: "length (transformationMatrix ?s0) = 16"
    using len by simp
  from onGetMarker_heap[OF m0 l0, of mk] obtain s' where
    r: "onGetMarker mk ?s0 = Inr s'" and
    h: "\<And>a. heap s' a =
        (if map_of (patternMarkers ?s0) (idPatt mk) = Some a \<or>
            map_of (barcodeMarkers ?s0) (idMatrix mk) = Some a
         then shown (transformationMatrix ?s0) (heap ?s0 a)
         else heap ?s0 a)" by blast
  have st: "same_tables s s'"
    using onGetMarker_Inr[OF r] by (simp add: same_tables_def)
  have "matrices_ok s'"
    by (rule onGetMarker_matrices_ok[OF m0 l0 r])
  with wf st have "wf_state s'" by (rule wf_state_same_tables)
  with r st h show ?thesis by simp
qed

lemma visible_shown: "visible (shown pose ob)"
  by (simp add: shown_def)

lemma artoolkit_process_visible:
  assumes "wf_state s" "poses_ok frame"
  shows "\<exists>s'. artoolkit_process frame s = Inr s' \<and> wf_state s' \<and> same_tables s s' \<and>
     (\<forall>(k, a) \<in> set (patternMarkers s).
        visible (heap s' a) \<longleftrightarrow> visible (heap s a) \<or> k \<in> set (map (idPatt \<circ> det_marker) frame)) \<and>
     (\<forall>(k, a) \<in> set (barcodeMarkers s).
        visible (heap s' a) \<longleftrightarrow> visible (heap s a) \<or> k \<in> set (map (idMatrix \<circ> det_marker) frame)) \<and>
     (\<forall>a. a \<notin> set (registered s) \<longrightarrow> heap s' a = heap s a)"
  using assms
proof (induction frame arbitrary: s)
  case Nil
  then show ?case by (simp add: same_tables_def)
next
  case (Cons d ds)
  from Cons.prems have len: "length (det_pose d) = 16" and pds: "poses_ok ds"
    by (simp_all add: poses_ok_def)
  from onGetMarker_step[OF Cons.prems(1) len, of "det_marker d"] obtain s1 where
    r1: "onGetMarker (det_marker d) (s\<lparr>transformationMatrix := det_pose d\<rparr>) = Inr s1" and
    wf1: "wf_state s1" and st1: "same_tables s s1" and
    h1: "\<And>a. heap s1 a =
              (if map_of (patternMarkers s) (idPatt (det_marker d)) = Some a \<or>
                  map_of (barcodeMarkers s) (idMatrix (det_marker d)) = Some a
               then shown (det_pose d) (heap s a) else heap s a)" by blast
  from Cons.IH[OF wf1 pds] obtain s' where
    r2: "artoolkit_process ds s1 = Inr s'" and wf2: "wf_state s'" and st2: "same_tables s1 s'" and
    vp: "\<forall>(k, a) \<in> set (patternMarkers s1).
        visible (heap s' a) \<longleftrightarrow> visible (heap s1 a) \<or> k \<in> set (map (idPatt \<circ> det_marker) ds)" and
    vb: "\<forall>(k, a) \<in> set (barcodeMarkers s1).
        visible (heap s' a) \<longleftrightarrow> visible (heap s1 a) \<or> k \<in> set (map (idMatrix \<circ> det_marker) ds)" and
    un: "\<forall>a. a \<notin> set (registered s1) \<longrightarrow> heap s' a = heap s1 a" by blast
  have tabs: "patternMarkers s1 = patternMarkers s" "barcodeMarkers s1 = barcodeMarkers s"
    using st1 by (simp_all add: same_tables_def)
  have run: "artoolkit_process (d # ds) s = Inr s'"
    using r1 r2 by simp
  have P: "visible (heap s' a) \<longleftrightarrow> visible (heap s a) \<or> k \<in> set (map (idPatt \<circ> det_marker) (d # ds))"
    if "(k, a) \<in> set (patternMarkers s)" for k a
  proof -
    have "visible (heap s1 a) \<longleftrightarrow> visible (heap s a) \<or> idPatt (det_marker d) = k"
      unfolding h1 using wf_pattern_lookup[OF Cons.prems(1) that] by (simp add: visible_shown)
    moreover have "visible (heap s' a) \<longleftrightarrow> visible (heap s1 a) \<or> k \<in> set (map (idPatt \<circ> det_marker) ds)"
      using vp that tabs by auto
    ultimately show ?thesis by auto
  qed
  have B: "visible (heap s' a) \<longleftrightarrow> visible (heap s a) \<or> k \<in> set (map (idMatrix \<circ> det_marker) (d # ds))"
    if "(k, a) \<in> set (barcodeMarkers s)" for k a
  proof -
    have "visible (heap s1 a) \<longleftrightarrow> visible (heap s a) \<or> idMatrix (det_marker d) = k"
      unfolding h1 using wf_barcode_lookup[OF Cons.prems(1) that] by (simp add: visible_shown)
    moreover have "visible (heap s' a) \<longleftrightarrow> visible (heap s1 a) \<or> k \<in> set (map (idMatrix \<circ> det_marker) ds)"
      using vb that tabs by auto
    ultimately show ?thesis by auto
  qed
  have U: "heap s' a = heap s a" if "a \<notin> set (registered s)" for a
  proof -
    have "heap s1 a = heap s a"
      unfolding h1 using lookup_registered[of s _ a] that by auto
    moreover have "heap s' a = heap s1 a"
      using un that same_tables_registered[OF st1] by simp
    ultimately show ?thesis by simp
  qed
  from run wf2 same_tables_trans[OF st1 st2] P B U show ?case by blast
qed

subsection \<open>The frame loop\<close>

lemma set_projection_16:
  assumes "camera_ok s"
  shows "set_projection s = Inr (s\<lparr>camera_projectionMatrix := (camera_projectionMatrix s)\<lparr>elements := cameraMatrix s\<rparr>\<rparr>)"
  using assms by (simp add: set_projection_def camera_ok_def getCameraMatrix_def setFromArray_16)

lemma camera_ok_same_tables: "same_tables s s' \<Longrightarrow> camera_ok s' = camera_ok s"
  by (simp add: same_tables_def camera_ok_def)

lemma same_tables_hide_all: "same_tables s (hide_all s)"
  by (simp add: same_tables_def hide_all_fields)

lemma process_effect:
  assumes wf: "wf_state s" and poses: "poses_ok frame" and cam: "camera_ok s"
  shows "\<exists>s1 s'. artoolkit_process frame (hide_all s) = Inr s1 \<and>
           process frame s = Inr s' \<and>
           s' = s1\<lparr>camera_projectionMatrix := (camera_projectionMatrix s)\<lparr>elements := cameraMatrix s\<rparr>\<rparr> \<and>
           wf_state s1 \<and> same_tables s s1 \<and>
           (\<forall>(k, a) \<in> set (patternMarkers s).
              visible (heap s1 a) \<longleftrightarrow> k \<in> set (map (idPatt \<circ> det_marker) frame)) \<and>
           (\<forall>(k, a) \<in> set (barcodeMarkers s).
              visible (heap s1 a) \<longleftrightarrow> k \<in> set (map (idMatrix \<circ> det_marker) frame)) \<and>
           (\<forall>a. a \<notin> set (registered s) \<longrightarrow> heap s1 a = heap s a)"
proof -
  have wfh: "wf_state (hide_all s)" using wf by (simp add: wf_state_hide_all)
  from artoolkit_process_visible[OF wfh poses] obtain s1 where
    r: "artoolkit_process frame (hide_all s) = Inr s1" and wf1: "wf_state s1" and
    st: "same_tables (hide_all s) s1" and
    vp: "\<forall>(k, a) \<in> set (patternMarkers (hide_all s)).
        visible (heap s1 a) \<longleftrightarrow> visible (heap (hide_all s) a) \<or> k \<in> set (map (idPatt \<circ> det_marker) frame)" and
    vb: "\<forall>(k, a) \<in> set (barcodeMarkers (hide_all s)).
        visible (heap s1 a) \<longleftrightarrow> visible (heap (hide_all s) a) \<or> k \<in> set (map (idMatrix \<circ> det_marker) frame)" and
    un: "\<forall>a. a \<notin> set (registered (hide_all s)) \<longrightarrow> heap s1 a = heap (hide_all s) a" by blast
  have st': "same_tables s s1"
    using same_tables_trans[OF same_tables_hide_all st] .
  have cam1: "camera_ok s1" using cam camera_ok_same_tables[OF st'] by simp
  have eqs: "camera_projectionMatrix s1 = camera_projectionMatrix s" "cameraMatrix s1 = cameraMatrix s"
    using st' by (simp_all add: same_tables_def)
  have p: "process frame s = Inr (s1\<lparr>camera_projectionMatrix := (camera_projectionMatrix s)\<lparr>elements := cameraMatrix s\<rparr>\<rparr>)"
    using r set_projection_16[OF cam1] by (simp add: process_def eqs)
  have P: "\<forall>(k, a) \<in> set (patternMarkers s).
              visible (heap s1 a) \<longleftrightarrow> k \<in> set (map (idPatt \<circ> det_marker) frame)"
  proof (clarify)
    fix k a assume ka: "(k, a) \<in> set (patternMarkers s)"
    then have "a \<in> set (registered s)" by (force simp: registered_def)
    then have "\<not> visible (heap (hide_all s) a)" by (simp add: hide_all_heap)
    moreover have "visible (heap s1 a) \<longleftrightarrow> visible (heap (hide_all s) a) \<or> k \<in> set (map (idPatt \<circ> det_marker) frame)"
      using vp ka unfolding hide_all_fields by blast
    ultimately show "visible (heap s1 a) \<longleftrightarrow> k \<in> set (map (idPatt \<circ> det_marker) frame)" by simp
  qed
  have B: "\<forall>(k, a) \<in> set (barcodeMarkers s).
              visible (heap s1 a) \<longleftrightarrow> k \<in> set (map (idMatrix \<circ> det_marker) frame)"
  proof (clarify)
    fix k a assume ka: "(k, a) \<in> set (barcodeMarkers s)"
    then have "a \<in> set (registered s)" by (force simp: registered_def)
    then have "\<not> visible (heap (hide_all s) a)" by (simp add: hide_all_heap)
    moreover have "visible (heap s1 a) \<longleftrightarrow> visible (heap (hide_all s) a) \<or> k \<in> set (map (idMatrix \<circ> det_marker) frame)"
      using vb ka unfolding hide_all_fields by blast
    ultimately show "visible (heap s1 a) \<longleftrightarrow> k \<in> set (map (idMatrix \<circ> det_marker) frame)" by simp
  qed
  have U: "\<forall>a. a \<notin> set (registered s) \<longrightarrow> heap s1 a = heap s a"
    using un by (simp add: registered_hide_all hide_all_heap)
  from r p wf1 st' P B U show ?thesis by blast
qed

subsection \<open>Registration\<close>

lemma createThreeMarker_eq:
  "createThreeMarker uid s =
     (next_addr s,
      s\<lparr>heap := (heap s)(next_addr s := new_Object3D\<lparr>matrixAutoUpdate := False\<rparr>),
        next_addr := Suc (next_addr s),
        patternMarkers := AList.update uid (next_addr s) (patternMarkers s)\<rparr>)"
  by (simp add: createThreeMarker_def alloc_Object3D_def Let_def)

lemma createThreeBarcodeMarker_eq:
  "createThreeBarcodeMarker uid s =
     (next_addr s,
      s\<lparr>heap := (heap s)(next_addr s := new_Object3D\<lparr>matrixAutoUpdate := False\<rparr>),
        next_addr := Suc (next_addr s),
        barcodeMarkers := AList.update uid (next_addr s) (barcodeMarkers s)\<rparr>)"
  by (simp add: createThreeBarcodeMarker_def alloc_Object3D_def Let_def)

lemma snd_set_update: "snd ` set (AList.update k v al) \<subseteq> insert v (snd ` set al)"
  by (induction al) auto

lemma distinct_snd_update:
  "distinct (map snd al) \<Longrightarrow> v \<notin> snd ` set al \<Longrightarrow> distinct (map snd (AList.update k v al))"
proof (induction al)
  case Nil
  then show ?case by simp
next
  case (Cons p al)
  then show ?case
    using snd_set_update[of k v al] by (cases p) (auto simp: image_iff)
qed

lemma wf_fresh: "wf_state s \<Longrightarrow> next_addr s \<notin> set (registered s)"
  by (auto simp: wf_state_def list_all_iff)

lemma new_Object3D_16: "length (elements (matrix new_Object3D)) = 16"
  by (simp add: new_Object3D_def identity_elements_def)

lemma disjoint_subset_insert:
  "X \<subseteq> insert n A \<Longrightarrow> n \<notin> B \<Longrightarrow> A \<inter> B = {} \<Longrightarrow> X \<inter> B = {}"
  "X \<subseteq> insert n B \<Longrightarrow> n \<notin> A \<Longrightarrow> A \<inter> B = {} \<Longrightarrow> A \<inter> X = {}"
  by blast+

lemma wf_state_createThreeMarker:
  assumes wf: "wf_state s"
  shows "wf_state (snd (createThreeMarker uid s))"
proof -
  let ?n = "next_addr s"
  let ?s' = "snd (createThreeMarker uid s)"
  have fresh: "?n \<notin> snd ` set (patternMarkers s)" "?n \<notin> snd ` set (barcodeMarkers s)"
    using wf_fresh[OF wf] by (auto simp: registered_def)
  have d: "distinct (map fst (patternMarkers s))" "distinct (map fst (barcodeMarkers s))"
    "distinct (map snd (patternMarkers s))" "distinct (map snd (barcodeMarkers s))"
    "snd ` set (patternMarkers s) \<inter> snd ` set (barcodeMarkers s) = {}"
    using wf by (auto simp: wf_state_def registered_def)
  have old: "a < ?n \<and> length (elements (matrix (heap s a))) = 16"
    if "a \<in> snd ` set (patternMarkers s) \<union> snd ` set (barcodeMarkers s)" for a
    using wf that by (auto simp: wf_state_def registered_def list_all_iff matrices_ok_def)
  have sp: "snd ` set (AList.update uid ?n (patternMarkers s)) \<subseteq> insert ?n (snd ` set (patternMarkers s))"
    by (rule snd_set_update)
  have P: "patternMarkers ?s' = AList.update uid ?n (patternMarkers s)"
    and B: "barcodeMarkers ?s' = barcodeMarkers s"
    and N: "next_addr ?s' = Suc ?n"
    and H: "heap ?s' = (heap s)(?n := new_Object3D\<lparr>matrixAutoUpdate := False\<rparr>)"
    by (simp_all add: createThreeMarker_eq)
  have 1: "distinct (map fst (patternMarkers ?s'))"
    unfolding P using d(1) by (rule distinct_update)
  have 2: "distinct (map fst (barcodeMarkers ?s'))"
    unfolding B by (rule d(2))
  have dj: "snd ` set (AList.update uid ?n (patternMarkers s)) \<inter> snd ` set (barcodeMarkers s) = {}"
    by (rule disjoint_subset_insert(1)[OF sp fresh(2) d(5)])
  have 3: "distinct (registered ?s')"
    unfolding registered_def P B distinct_append set_map
    using distinct_snd_update[OF d(3) fresh(1), of uid] d(4) dj by blast
  have reg: "set (registered ?s') \<subseteq> insert ?n (snd ` set (patternMarkers s) \<union> snd ` set (barcodeMarkers s))"
    unfolding registered_def P B using sp by auto
  have 4: "list_all (\<lambda>obj. obj < next_addr ?s') (registered ?s')"
    unfolding list_all_iff N
  proof
    fix a assume "a \<in> set (registered ?s')"
    with reg have "a = ?n \<or> a \<in> snd ` set (patternMarkers s) \<union> snd ` set (barcodeMarkers s)" by auto
    then show "a < Suc ?n" using old by (auto simp: less_Suc_eq)
  qed
  have 5: "matrices_ok ?s'"
    unfolding matrices_ok_def list_all_iff
  proof
    fix a assume "a \<in> set (registered ?s')"
    with reg have "a = ?n \<or> a \<in> snd ` set (patternMarkers s) \<union> snd ` set (barcodeMarkers s)" by auto
    then show "length (elements (matrix (heap ?s' a))) = 16"
      unfolding H using old by (auto simp: new_Object3D_16)
  qed
  from 1 2 3 4 5 show ?thesis unfolding wf_state_def by blast
qed

lemma wf_state_createThreeBarcodeMarker:
  assumes wf: "wf_state s"
  shows "wf_state (snd (createThreeBarcodeMarker uid s))"
proof -
  let ?n = "next_addr s"
  let ?s' = "snd (createThreeBarcodeMarker uid s)"
  have fresh: "?n \<notin> snd ` set (patternMarkers s)" "?n \<notin> snd ` set (barcodeMarkers s)"
    using wf_fresh[OF wf] by (auto simp: registered_def)
  have d: "distinct (map fst (patternMarkers s))" "distinct (map fst (barcodeMarkers s))"
    "distinct (map snd (patternMarkers s))" "distinct (map snd (barcodeMarkers s))"
    "snd ` set (patternMarkers s) \<inter> snd ` set (barcodeMarkers s) = {}"
    using wf by (auto simp: wf_state_def registered_def)
  have old: "a < ?n \<and> length (elements (matrix (heap s a))) = 16"
    if "a \<in> snd ` set (patternMarkers s) \<union> snd ` set (barcodeMarkers s)" for a
    using wf that by (auto simp: wf_state_def registered_def list_all_iff matrices_ok_def)
  have sp: "snd ` set (AList.update uid ?n (barcodeMarkers s)) \<subseteq> insert ?n (snd ` set (barcodeMarkers s))"
    by (rule snd_set_update)
  have P: "patternMarkers ?s' = patternMarkers s"
    and B: "barcodeMarkers ?s' = AList.update uid ?n (barcodeMarkers s)"
    and N: "next_addr ?s' = Suc ?n"
    and H: "heap ?s' = (heap s)(?n := new_Object3D\<lparr>matrixAutoUpdate := False\<rparr>)"
    by (simp_all add: createThreeBarcodeMarker_eq)
  have 1: "distinct (map fst (patternMarkers ?s'))"
    unfolding P by (rule d(1))
  have 2: "distinct (map fst (barcodeMarkers ?s'))"
    unfolding B using d(2) by (rule distinct_update)
  have dj: "snd ` set (patternMarkers s) \<inter> snd ` set (AList.update uid ?n (barcodeMarkers s)) = {}"
    by (rule disjoint_subset_insert(2)[OF sp fresh(1) d(5)])
  have 3: "distinct (registered ?s')"
    unfolding registered_def P B distinct_append set_map
    using distinct_snd_update[OF d(4) fresh(2), of uid] d(3) dj by blast
  have reg: "set (registered ?s') \<subseteq> insert ?n (snd ` set (patternMarkers s) \<union> snd ` set (barcodeMarkers s))"
    unfolding registered_def P B using sp by auto
  have 4: "list_all (\<lambda>obj. obj < next_addr ?s') (registered ?s')"
    unfolding list_all_iff N
  proof
    fix a assume "a \<in> set (registered ?s')"
    with reg have "a = ?n \<or> a \<in> snd ` set (patternMarkers s) \<union> snd ` set (barcodeMarkers s)" by auto
    then show "a < Suc ?n" using old by (auto simp: less_Suc_eq)
  qed
  have 5: "matrices_ok ?s'"
    unfolding matrices_ok_def list_all_iff
  proof
    fix a assume "a \<in> set (registered ?s')"
    with reg have "a = ?n \<or> a \<in> snd ` set (patternMarkers s) \<union> snd ` set (barcodeMarkers s)" by auto
    then show "length (elements (matrix (heap ?s' a))) = 16"
      unfolding H using old by (auto simp: new_Object3D_16)
  qed
  from 1 2 3 4 5 show ?thesis unfolding wf_state_def by blast
qed

lemma wf_state_start: "wf_state (start_state cam)"
  by (simp add: wf_state_def start_state_def registered_def matrices_ok_def)

subsection \<open>What the frame operations leave alone\<close>

lemma pose_update_only_refl: "pose_update_only reg h h"
proof -
  have "h a = (h a)\<lparr>matrix := matrix (h a), visible := visible (h a)\<rparr>" for a by simp
  then show ?thesis unfolding pose_update_only_def by blast
qed

lemma pose_update_only_trans:
  assumes "pose_update_only reg h h1" "pose_update_only reg h1 h2"
  shows "pose_update_only reg h h2"
  unfolding pose_update_only_def
proof (intro allI conjI impI)
  fix a
  obtain m v where 1: "h1 a = (h a)\<lparr>matrix := m, visible := v\<rparr>"
    using assms(1) unfolding pose_update_only_def by blast
  obtain m' v' where 2: "h2 a = (h1 a)\<lparr>matrix := m', visible := v'\<rparr>"
    using assms(2) unfolding pose_update_only_def by blast
  have "h2 a = (h a)\<lparr>matrix := m', visible := v'\<rparr>"
    unfolding 2 1 by simp
  then show "\<exists>m v. h2 a = (h a)\<lparr>matrix := m, visible := v\<rparr>" by blast
next
  fix a assume "a \<notin> set reg"
  then show "h2 a = h a"
    using assms unfolding pose_update_only_def by simp
qed

lemma pose_update_only_one:
  assumes "obj \<in> set reg"
  shows "pose_update_only reg h (h(obj := (h obj)\<lparr>matrix := m, visible := v\<rparr>))"
  unfolding pose_update_only_def
proof (intro allI conjI impI)
  fix a
  show "\<exists>m' v'. (h(obj := (h obj)\<lparr>matrix := m, visible := v\<rparr>)) a = (h a)\<lparr>matrix := m', visible := v'\<rparr>"
  proof (cases "a = obj")
    case True
    then show ?thesis by auto
  next
    case False
    then have "(h(obj := (h obj)\<lparr>matrix := m, visible := v\<rparr>)) a = (h a)\<lparr>matrix := matrix (h a), visible := visible (h a)\<rparr>"
      by simp
    then show ?thesis by blast
  qed
next
  fix a assume "a \<notin> set reg"
  with assms show "(h(obj := (h obj)\<lparr>matrix := m, visible := v\<rparr>)) a = h a" by auto
qed

lemma show_marker_pose_update:
  assumes "show_marker obj s = Inr s'" "obj \<in> set (registered s)"
  shows "patternMarkers s' = patternMarkers s \<and> barcodeMarkers s' = barcodeMarkers s \<and>
         pose_update_only (registered s) (heap s) (heap s')"
proof -
  from show_marker_Inr[OF assms(1)] obtain m where
    "s' = s\<lparr>heap := (heap s)(obj := (heap s obj)\<lparr>matrix := m, visible := True\<rparr>)\<rparr>" by blast
  then show ?thesis
    using pose_update_only_one[OF assms(2), where h="heap s" and m=m and v=True] by simp
qed

lemma onGetMarker_pose_update:
  assumes "onGetMarker mk s = Inr s'"
  shows "patternMarkers s' = patternMarkers s \<and> barcodeMarkers s' = barcodeMarkers s \<and>
         pose_update_only (registered s) (heap s) (heap s')"
proof -
  from assms obtain s1 where
    a: "(case map_of (patternMarkers s) (idPatt mk) of None \<Rightarrow> Inr s | Some obj \<Rightarrow> show_marker obj s) = Inr s1"
    and b: "(case map_of (barcodeMarkers s1) (idMatrix mk) of None \<Rightarrow> Inr s1 | Some obj \<Rightarrow> show_marker obj s1) = Inr s'"
    unfolding onGetMarker_def bind_err_Inr by blast
  have 1: "patternMarkers s1 = patternMarkers s \<and> barcodeMarkers s1 = barcodeMarkers s \<and>
         pose_update_only (registered s) (heap s) (heap s1)"
  proof (cases "map_of (patternMarkers s) (idPatt mk)")
    case None
    with a show ?thesis by (simp add: pose_update_only_refl)
  next
    case (Some p)
    then have "p \<in> set (registered s)" using lookup_registered[of s] by blast
    with a Some show ?thesis using show_marker_pose_update[of p s s1] by simp
  qed
  then have r: "registered s1 = registered s" by (simp add: registered_def)
  have 2: "patternMarkers s' = patternMarkers s1 \<and> barcodeMarkers s' = barcodeMarkers s1 \<and>
         pose_update_only (registered s1) (heap s1) (heap s')"
  proof (cases "map_of (barcodeMarkers s1) (idMatrix mk)")
    case None
    with b show ?thesis by (simp add: pose_update_only_refl)
  next
    case (Some p)
    then have "p \<in> set (registered s1)" using lookup_registered[of s1] by blast
    with b Some show ?thesis using show_marker_pose_update[of p s1 s'] by simp
  qed
  from 1 2 show ?thesis
    using pose_update_only_trans[of "registered s" "heap s" "heap s1" "heap s'"] by (simp add: r)
qed

lemma artoolkit_process_pose_update:
  assumes "artoolkit_process frame s = Inr s'"
  shows "patternMarkers s' = patternMarkers s \<and> barcodeMarkers s' = barcodeMarkers s \<and>
         pose_update_only (registered s) (heap s) (heap s')"
  using assms
proof (induction frame arbitrary: s)
  case Nil
  then show ?case by (simp add: pose_update_only_refl)
next
  case (Cons d ds)
  let ?s0 = "s\<lparr>transformationMatrix := det_pose d\<rparr>"
  from Cons.prems obtain s1 where
    a: "onGetMarker (det_marker d) ?s0 = Inr s1" and b: "artoolkit_process ds s1 = Inr s'"
    by (auto simp: bind_err_Inr)
  have r0: "registered ?s0 = registered s" by (simp add: registered_def)
  from onGetMarker_pose_update[OF a] have
    1: "patternMarkers s1 = patternMarkers s" "barcodeMarkers s1 = barcodeMarkers s"
       "pose_update_only (registered s) (heap s) (heap s1)"
    by (simp_all add: r0)
  then have r1: "registered s1 = registered s" by (simp add: registered_def)
  from Cons.IH[OF b] have
    2: "patternMarkers s' = patternMarkers s1" "barcodeMarkers s' = barcodeMarkers s1"
       "pose_update_only (registered s) (heap s1) (heap s')"
    by (simp_all add: r1)
  from 1 2 show ?case
    using pose_update_only_trans[of "registered s" "heap s" "heap s1" "heap s'"] by simp
qed

lemma hide_all_pose_update: "pose_update_only (registered s) (heap s) (heap (hide_all s))"
  unfolding pose_update_only_def
proof (intro allI conjI impI)
  fix a
  show "\<exists>m v. heap (hide_all s) a = (heap s a)\<lparr>matrix := m, visible := v\<rparr>"
  proof (cases "a \<in> set (registered s)")
    case True
    then have "heap (hide_all s) a = (heap s a)\<lparr>matrix := matrix (heap s a), visible := False\<rparr>"
      by (simp add: hide_all_heap)
    then show ?thesis by blast
  next
    case False
    then have "heap (hide_all s) a = (heap s a)\<lparr>matrix := matrix (heap s a), visible := visible (heap s a)\<rparr>"
      by (simp add: hide_all_heap)
    then show ?thesis by blast
  qed
next
  fix a assume "a \<notin> set (registered s)"
  then show "heap (hide_all s) a = heap s a" by (simp add: hide_all_heap)
qed

lemma set_projection_Inr:
  assumes "set_projection s = Inr s'"
  shows "patternMarkers s' = patternMarkers s \<and> barcodeMarkers s' = barcodeMarkers s \<and> heap s' = heap s"
  using assms by (auto simp: set_projection_def split: sum.splits)

lemma process_pose_update:
  assumes "process frame s = Inr s'"
  shows "patternMarkers s' = patternMarkers s \<and> barcodeMarkers s' = barcodeMarkers s \<and>
         pose_update_only (registered s) (heap s) (heap s')"
proof -
  from assms obtain s1 where
    a: "artoolkit_process frame (hide_all s) = Inr s1" and b: "set_projection s1 = Inr s'"
    unfolding process_def bind_err_Inr by blast
  from artoolkit_process_pose_update[OF a] have
    1: "patternMarkers s1 = patternMarkers s" "barcodeMarkers s1 = barcodeMarkers s"
       "pose_update_only (registered s) (heap (hide_all s)) (heap s1)"
    by (simp_all add: hide_all_fields registered_hide_all)
  from set_projection_Inr[OF b] 1 show ?thesis
    using pose_update_only_trans[OF hide_all_pose_update 1(3)] by simp
qed

subsection \<open>Well-formedness is kept by every operation\<close>

lemma show_marker_length:
  assumes "show_marker obj s = Inr s'" and "length (elements (matrix (heap s a))) = 16"
  shows "length (elements (matrix (heap s' a))) = 16"
  using assms
  by (auto simp: show_marker_def Let_def setFromArray_def Float32Array_set_def split: if_splits)

lemma show_marker_tables:
  assumes "show_marker obj s = Inr s'"
  shows "patternMarkers s' = patternMarkers s" "barcodeMarkers s' = barcodeMarkers s"
    "next_addr s' = next_addr s"
  using show_marker_Inr[OF assms] by auto

lemma wf_state_show_marker:
  assumes "wf_state s" and "show_marker obj s = Inr s'"
  shows "wf_state s'"
proof -
  note t = show_marker_tables[OF assms(2)]
  have "matrices_ok s'"
    using assms(1) show_marker_length[OF assms(2)]
    by (simp add: wf_state_def matrices_ok_def registered_def t list_all_iff)
  then show ?thesis
    using assms(1) by (simp add: wf_state_def registered_def t)
qed

lemma wf_state_onGetMarker:
  assumes "wf_state s" and "onGetMarker mk s = Inr s'"
  shows "wf_state s'"
proof -
  from assms(2) obtain s1 where
    a: "(case map_of (patternMarkers s) (idPatt mk) of None \<Rightarrow> Inr s | Some obj \<Rightarrow> show_marker obj s) = Inr s1"
    and b: "(case map_of (barcodeMarkers s1) (idMatrix mk) of None \<Rightarrow> Inr s1 | Some obj \<Rightarrow> show_marker obj s1) = Inr s'"
    unfolding onGetMarker_def bind_err_Inr by blast
  have 1: "wf_state s1"
  proof (cases "map_of (patternMarkers s) (idPatt mk)")
    case None
    with a assms(1) show ?thesis by simp
  next
    case (Some p)
    with a have "show_marker p s = Inr s1" by simp
    with assms(1) show ?thesis by (rule wf_state_show_marker)
  qed
  show ?thesis
  proof (cases "map_of (barcodeMarkers s1) (idMatrix mk)")
    case None
    with b 1 show ?thesis by simp
  next
    case (Some p)
    with b have "show_marker p s1 = Inr s'" by simp
    with 1 show ?thesis by (rule wf_state_show_marker)
  qed
qed

lemma wf_state_transformationMatrix:
  "wf_state (s\<lparr>transformationMatrix := t\<rparr>) = wf_state s"
  by (simp add: wf_state_def matrices_ok_def registered_def)

lemma wf_state_artoolkit_process:
  assumes "wf_state s" and "artoolkit_process frame s = Inr s'"
  shows "wf_state s'"
  using assms
proof (induction frame arbitrary: s)
  case Nil
  then show ?case by simp
next
  case (Cons d ds)
  from Cons.prems(2) obtain s1 where
    a: "onGetMarker (det_marker d) (s\<lparr>transformationMatrix := det_pose d\<rparr>) = Inr s1"
    and b: "artoolkit_process ds s1 = Inr s'"
    by (auto simp: bind_err_Inr)
  have "wf_state s1"
    using wf_state_onGetMarker[OF _ a] Cons.prems(1) by (simp add: wf_state_transformationMatrix)
  then show ?case using Cons.IH b by blast
qed

lemma wf_state_process:
  assumes "wf_state s" and "process frame s = Inr s'"
  shows "wf_state s'"
proof -
  from assms(2) obtain s1 where
    a: "artoolkit_process frame (hide_all s) = Inr s1" and b: "set_projection s1 = Inr s'"
    unfolding process_def bind_err_Inr by blast
  have 1: "wf_state s1"
    using wf_state_artoolkit_process[OF _ a] assms(1) by (simp add: wf_state_hide_all)
  from b obtain m where "s' = s1\<lparr>camera_projectionMatrix := m\<rparr>"
    by (auto simp: set_projection_def split: sum.splits)
  with 1 show ?thesis
    by (simp add: wf_state_def matrices_ok_def registered_def)
qed

lemma wf_state_exec:
  assumes "wf_state s" and "exec opn s = Inr s'"
  shows "wf_state s'"
proof (cases opn)
  case (Op_createThreeMarker uid)
  with assms show ?thesis using wf_state_createThreeMarker[of s uid] by auto
next
  case (Op_createThreeBarcodeMarker uid)
  with assms show ?thesis using wf_state_createThreeBarcodeMarker[of s uid] by auto
next
  case (Op_onGetMarker mk)
  with assms show ?thesis using wf_state_onGetMarker[of s mk s'] by simp
next
  case (Op_process frame)
  with assms show ?thesis using wf_state_process[of s frame s'] by simp
qed

text \<open>Every state that the operations of the file build from the empty tables is well-formed.\<close>

lemma wf_state_exec_all:
  assumes "wf_state s" and "exec_all ops s = Inr s'"
  shows "wf_state s'"
  using assms
proof (induction ops arbitrary: s)
  case Nil
  then show ?case by simp
next
  case (Cons opn ops)
  from Cons.prems(2) obtain s1 where a: "exec opn s = Inr s1" and b: "exec_all ops s1 = Inr s'"
    by (auto simp: bind_err_Inr)
  from wf_state_exec[OF Cons.prems(1) a] Cons.IH b show ?case by blast
qed

lemma wf_state_reachable:
  "exec_all ops (start_state cam) = Inr s \<Longrightarrow> wf_state s"
  using wf_state_exec_all[OF wf_state_start] .

subsection \<open>The example state\<close>

lemma demo_state_fields:
  "patternMarkers demo_state = [(5, 0)]"
  "barcodeMarkers demo_state = [(7, 1)]"
  "next_addr demo_state = 2"
  "transformationMatrix demo_state = identity_elements"
  "cameraMatrix demo_state = identity_elements"
  "camera_projectionMatrix demo_state = \<lparr>elements = identity_elements\<rparr>"
  by (simp_all add: demo_state_def hide_all_fields createThreeMarker_eq createThreeBarcodeMarker_eq
      start_state_def)

lemma demo_state_heap:
  "heap demo_state 0 = \<lparr>matrix = \<lparr>elements = identity_elements\<rparr>, visible = False, matrixAutoUpdate = False\<rparr>"
  "heap demo_state (Suc 0) = \<lparr>matrix = \<lparr>elements = identity_elements\<rparr>, visible = False, matrixAutoUpdate = False\<rparr>"
  by (simp_all add: demo_state_def hide_all_heap registered_def createThreeMarker_eq
      createThreeBarcodeMarker_eq start_state_def new_Object3D_def)

lemma wf_demo_state: "wf_state demo_state"
  unfolding demo_state_def wf_state_hide_all
  by (intro wf_state_createThreeBarcodeMarker wf_state_createThreeMarker wf_state_start)

lemma length_identity_elements: "length identity_elements = 16"
  by (simp add: identity_elements_def)

lemma length_demo_pose: "length demo_pose = 16"
  by (simp add: demo_pose_def)

lemma camera_ok_demo_state: "camera_ok demo_state"
  by (simp add: camera_ok_def demo_state_fields length_identity_elements)

subsection \<open>Claims about single calls\<close>

text \<open>
  Claim C8. For a Matrix4 (16 entries) and a 16-entry Float32Array \<open>a\<close>, after
  \<open>setFromArray(a)\<close> the elements of the matrix are the 16 values of \<open>a\<close> in the same
  order. The call returns what \<open>elements.set(a)\<close> returns, which is \<open>undefined\<close> and not
  the matrix, so the call cannot be chained.
\<close>

theorem setFromArray_copies_returns_undefined:
  assumes "length (elements this) = 16" and "length a = 16"
  shows "\<exists>v this'. setFromArray a this = Inr (v, this') \<and> elements this' = a \<and>
           v = Undefined \<and> v \<noteq> This"
  using assms by (simp add: setFromArray_16)

theorem setFromArray_copies_returns_undefined_witness:
  "length (elements \<lparr>elements = identity_elements\<rparr>) = 16 \<and> length demo_pose = 16 \<and>
   setFromArray demo_pose \<lparr>elements = identity_elements\<rparr> = Inr (Undefined, \<lparr>elements = demo_pose\<rparr>)"
proof -
  have h1: "length (elements \<lparr>elements = identity_elements\<rparr>) = 16"
    by (simp add: length_identity_elements)
  from setFromArray_copies_returns_undefined[OF h1 length_demo_pose]
  show ?thesis using h1 length_demo_pose by auto
qed

text \<open>
  Claim C2. For every marker report given to \<open>artoolkit.onGetMarker\<close>: when
  \<open>patternMarkers\<close> has the key \<open>marker.idPatt\<close>, the matrix of the object stored there is
  set from \<open>artoolkit.getTransformationMatrix()\<close> and the object is made visible; the
  same for \<open>barcodeMarkers\<close> at \<open>marker.idMatrix\<close>; when neither table has its key, the
  call changes nothing.
\<close>

theorem onGetMarker_updates_registered_objects:
  assumes "matrices_ok s" and "length (getTransformationMatrix s) = 16"
  shows "\<exists>s'. onGetMarker mk s = Inr s' \<and>
     (\<forall>obj. map_of (patternMarkers s) (idPatt mk) = Some obj \<longrightarrow>
        elements (matrix (heap s' obj)) = getTransformationMatrix s \<and> visible (heap s' obj)) \<and>
     (\<forall>obj. map_of (barcodeMarkers s) (idMatrix mk) = Some obj \<longrightarrow>
        elements (matrix (heap s' obj)) = getTransformationMatrix s \<and> visible (heap s' obj)) \<and>
     (map_of (patternMarkers s) (idPatt mk) = None \<and> map_of (barcodeMarkers s) (idMatrix mk) = None \<longrightarrow>
        s' = s)"
proof -
  have len: "length (transformationMatrix s) = 16"
    using assms(2) by (simp add: getTransformationMatrix_def)
  from onGetMarker_heap[OF assms(1) len, of mk] obtain s' where
    r: "onGetMarker mk s = Inr s'" and
    h: "\<And>a. heap s' a =
        (if map_of (patternMarkers s) (idPatt mk) = Some a \<or>
            map_of (barcodeMarkers s) (idMatrix mk) = Some a
         then shown (transformationMatrix s) (heap s a)
         else heap s a)" by blast
  have none: "s' = s"
    if "map_of (patternMarkers s) (idPatt mk) = None \<and> map_of (barcodeMarkers s) (idMatrix mk) = None"
    using that r by (simp add: onGetMarker_def)
  show ?thesis
    using r none by (auto simp: h shown_def getTransformationMatrix_def)
qed

theorem onGetMarker_updates_registered_objects_witness:
  "matrices_ok (demo_state\<lparr>transformationMatrix := demo_pose\<rparr>) \<and>
   length (getTransformationMatrix (demo_state\<lparr>transformationMatrix := demo_pose\<rparr>)) = 16 \<and>
   map_of (patternMarkers (demo_state\<lparr>transformationMatrix := demo_pose\<rparr>)) 5 = Some 0 \<and>
   \<not> visible (heap (demo_state\<lparr>transformationMatrix := demo_pose\<rparr>) 0) \<and>
   (\<exists>s'. onGetMarker \<lparr>idPatt = 5, idMatrix = -1\<rparr> (demo_state\<lparr>transformationMatrix := demo_pose\<rparr>) = Inr s' \<and>
         elements (matrix (heap s' 0)) = demo_pose \<and> visible (heap s' 0))"
proof -
  let ?s = "demo_state\<lparr>transformationMatrix := demo_pose\<rparr>"
  have h1: "matrices_ok ?s"
    using wf_demo_state by (simp add: wf_state_def matrices_ok_def registered_def)
  have h2: "length (getTransformationMatrix ?s) = 16"
    by (simp add: getTransformationMatrix_def length_demo_pose)
  have h3: "map_of (patternMarkers ?s) 5 = Some 0"
    by (simp add: demo_state_fields)
  have h4: "\<not> visible (heap ?s 0)"
    by (simp add: demo_state_heap)
  from onGetMarker_updates_registered_objects[OF h1 h2, of "\<lparr>idPatt = 5, idMatrix = -1\<rparr>"]
  show ?thesis using h1 h2 h3 h4 by (auto simp: getTransformationMatrix_def)
qed

text \<open>
  Claim C5. Every call of \<open>renderOn(renderer)\<close> renders the video scene with the video
  camera before the 3D scene with its camera, so that the frame holds the video with the
  3D scene on top, and leaves the renderer's \<open>autoClear\<close> as it was on entry, whatever
  it was.
\<close>

theorem renderOn_video_then_scene_autoClear_restored:
  "autoClear (snd (renderOn this r)) = autoClear r \<and>
   calls (snd (renderOn this r)) =
     calls r @ [Clear, Render (videoScene this) (videoCamera this), Render (scene this) (camera this)] \<and>
   framebuffer (snd (renderOn this r)) =
     [(videoScene this, videoCamera this), (scene this, camera this)]"
  by (simp add: renderOn_def Let_def renderer_clear_def renderer_render_def)

subsection \<open>Claims about the frame loop\<close>

text \<open>
  Claim C3. Every call of \<open>process()\<close> first sets \<open>visible = false\<close> on every object
  stored in \<open>patternMarkers\<close> and in \<open>barcodeMarkers\<close>, and only then hands the frame to
  the tracker; so when \<open>process()\<close> has returned, a registered marker object is visible
  if and only if the tracker reported its id during that call: \<open>idPatt\<close> for an object of
  \<open>patternMarkers\<close>, \<open>idMatrix\<close> for one of \<open>barcodeMarkers\<close>.
\<close>
theorem process_hides_all_then_shows_reported:
  assumes "wf_state s" and "poses_ok frame" and "camera_ok s"
  shows "(\<forall>obj \<in> set (registered s). \<not> visible (heap (hide_all s) obj)) \<and>
         process frame s = bind_err (artoolkit_process frame (hide_all s)) set_projection \<and>
         (\<exists>s'. process frame s = Inr s' \<and>
            (\<forall>(k, obj) \<in> set (patternMarkers s).
               visible (heap s' obj) \<longleftrightarrow> (\<exists>d \<in> set frame. idPatt (det_marker d) = k)) \<and>
            (\<forall>(k, obj) \<in> set (barcodeMarkers s).
               visible (heap s' obj) \<longleftrightarrow> (\<exists>d \<in> set frame. idMatrix (det_marker d) = k)))"
proof -
  from process_effect[OF assms] obtain s1 s' where
    p: "process frame s = Inr s'" and
    e: "s' = s1\<lparr>camera_projectionMatrix := (camera_projectionMatrix s)\<lparr>elements := cameraMatrix s\<rparr>\<rparr>" and
    vp: "\<forall>(k, a) \<in> set (patternMarkers s).
              visible (heap s1 a) \<longleftrightarrow> k \<in> set (map (idPatt \<circ> det_marker) frame)" and
    vb: "\<forall>(k, a) \<in> set (barcodeMarkers s).
              visible (heap s1 a) \<longleftrightarrow> k \<in> set (map (idMatrix \<circ> det_marker) frame)"
    by blast
  have h: "heap s' = heap s1" using e by simp
  have 1: "\<forall>obj \<in> set (registered s). \<not> visible (heap (hide_all s) obj)"
    by (simp add: hide_all_heap)
  have 2: "process frame s = bind_err (artoolkit_process frame (hide_all s)) set_projection"
    by (simp add: process_def)
  have 3: "\<forall>(k, obj) \<in> set (patternMarkers s).
               visible (heap s' obj) \<longleftrightarrow> (\<exists>d \<in> set frame. idPatt (det_marker d) = k)"
    using vp unfolding h by (auto simp: image_iff)
  have 4: "\<forall>(k, obj) \<in> set (barcodeMarkers s).
               visible (heap s' obj) \<longleftrightarrow> (\<exists>d \<in> set frame. idMatrix (det_marker d) = k)"
    using vb unfolding h by (auto simp: image_iff)
  from 1 2 p 3 4 show ?thesis by blast
qed

lemma poses_ok_demo_frame: "poses_ok demo_frame"
  by (simp add: poses_ok_def demo_frame_def length_demo_pose)

theorem process_hides_all_then_shows_reported_witness:
  "wf_state demo_state \<and> poses_ok demo_frame \<and> camera_ok demo_state \<and>
   (\<exists>s'. process demo_frame demo_state = Inr s' \<and> visible (heap s' 0) \<and> \<not> visible (heap s' 1))"
proof -
  from process_hides_all_then_shows_reported[OF wf_demo_state poses_ok_demo_frame camera_ok_demo_state]
  obtain s' where p: "process demo_frame demo_state = Inr s'"
    and vp: "\<forall>(k, obj) \<in> set (patternMarkers demo_state).
               visible (heap s' obj) \<longleftrightarrow> (\<exists>d \<in> set demo_frame. idPatt (det_marker d) = k)"
    and vb: "\<forall>(k, obj) \<in> set (barcodeMarkers demo_state).
               visible (heap s' obj) \<longleftrightarrow> (\<exists>d \<in> set demo_frame. idMatrix (det_marker d) = k)"
    by blast
  have "visible (heap s' 0)" using vp by (simp add: demo_state_fields demo_frame_def)
  moreover have "\<not> visible (heap s' 1)" using vb by (simp add: demo_state_fields demo_frame_def)
  ultimately show ?thesis
    using p wf_demo_state poses_ok_demo_frame camera_ok_demo_state by blast
qed

text \<open>
  Claim C4. Every call of \<open>process()\<close>, after the frame has been given to the tracker,
  sets the elements of the scene camera's \<open>projectionMatrix\<close> to the values of
  \<open>artoolkit.getCameraMatrix()\<close>.
\<close>
theorem process_sets_camera_projection:
  assumes "wf_state s" and "poses_ok frame" and "camera_ok s"
  shows "\<exists>s1 s'. artoolkit_process frame (hide_all s) = Inr s1 \<and> process frame s = Inr s' \<and>
           elements (camera_projectionMatrix s') = getCameraMatrix s1 \<and>
           getCameraMatrix s' = getCameraMatrix s1"
proof -
  from process_effect[OF assms] obtain s1 s' where
    r: "artoolkit_process frame (hide_all s) = Inr s1" and
    p: "process frame s = Inr s'" and
    e: "s' = s1\<lparr>camera_projectionMatrix := (camera_projectionMatrix s)\<lparr>elements := cameraMatrix s\<rparr>\<rparr>" and
    st: "same_tables s s1"
    by blast
  have "cameraMatrix s1 = cameraMatrix s" using st by (simp add: same_tables_def)
  then have "elements (camera_projectionMatrix s') = getCameraMatrix s1 \<and>
           getCameraMatrix s' = getCameraMatrix s1"
    unfolding e by (simp add: getCameraMatrix_def)
  with r p show ?thesis by blast
qed

lemma artoolkit_process_cameraMatrix:
  "artoolkit_process frame s = Inr s' \<Longrightarrow> cameraMatrix s' = cameraMatrix s"
proof (induction frame arbitrary: s)
  case Nil
  then show ?case by simp
next
  case (Cons d ds)
  from Cons.prems obtain s1 where
    a: "onGetMarker (det_marker d) (s\<lparr>transformationMatrix := det_pose d\<rparr>) = Inr s1"
    and b: "artoolkit_process ds s1 = Inr s'"
    by (auto simp: bind_err_Inr)
  from onGetMarker_Inr[OF a] Cons.IH[OF b] show ?case by simp
qed

theorem process_sets_camera_projection_witness:
  "wf_state (demo_state\<lparr>cameraMatrix := demo_pose\<rparr>) \<and> poses_ok demo_frame \<and>
   camera_ok (demo_state\<lparr>cameraMatrix := demo_pose\<rparr>) \<and>
   elements (camera_projectionMatrix (demo_state\<lparr>cameraMatrix := demo_pose\<rparr>)) \<noteq> demo_pose \<and>
   (\<exists>s'. process demo_frame (demo_state\<lparr>cameraMatrix := demo_pose\<rparr>) = Inr s' \<and>
         elements (camera_projectionMatrix s') = demo_pose)"
proof -
  let ?s = "demo_state\<lparr>cameraMatrix := demo_pose\<rparr>"
  have h1: "wf_state ?s"
    using wf_demo_state by (simp add: wf_state_def matrices_ok_def registered_def)
  have h3: "camera_ok ?s"
    by (simp add: camera_ok_def demo_state_fields length_identity_elements length_demo_pose)
  have h4: "elements (camera_projectionMatrix ?s) \<noteq> demo_pose"
    by (simp add: demo_state_fields identity_elements_def demo_pose_def f32_one_def)
  from process_sets_camera_projection[OF h1 poses_ok_demo_frame h3]
  obtain s1 s' where r: "artoolkit_process demo_frame (hide_all ?s) = Inr s1"
    and p: "process demo_frame ?s = Inr s'"
    and e: "elements (camera_projectionMatrix s') = getCameraMatrix s1"
    and g: "getCameraMatrix s' = getCameraMatrix s1" by blast
  have "cameraMatrix s1 = demo_pose"
    using artoolkit_process_cameraMatrix[OF r] by (simp add: hide_all_fields)
  then have "elements (camera_projectionMatrix s') = demo_pose"
    using e by (simp add: getCameraMatrix_def)
  with p h1 h3 h4 poses_ok_demo_frame show ?thesis by blast
qed


text \<open>
  Claim C10. The frame operations never change the key sets of the two tables:
  neither \<open>process()\<close> nor \<open>onGetMarker\<close> adds or removes an entry or replaces a stored
  object; on the marker objects they change only the visible flag and the matrix of
  objects that are registered. Of the operations on the tables, only
  \<open>createThreeMarker\<close> and \<open>createThreeBarcodeMarker\<close> change which UIDs are tracked.
\<close>
theorem frame_operations_keep_tables:
  "(onGetMarker mk s = Inr s' \<longrightarrow>
      patternMarkers s' = patternMarkers s \<and> barcodeMarkers s' = barcodeMarkers s \<and>
      pose_update_only (registered s) (heap s) (heap s')) \<and>
   (process frame s = Inr s'' \<longrightarrow>
      patternMarkers s'' = patternMarkers s \<and> barcodeMarkers s'' = barcodeMarkers s \<and>
      pose_update_only (registered s) (heap s) (heap s'')) \<and>
   (exec opn s = Inr s3 \<and>
      (map fst (patternMarkers s3) \<noteq> map fst (patternMarkers s) \<or>
       map fst (barcodeMarkers s3) \<noteq> map fst (barcodeMarkers s)) \<longrightarrow>
      (\<exists>uid. opn = Op_createThreeMarker uid \<or> opn = Op_createThreeBarcodeMarker uid))"
proof -
  have "\<exists>uid. opn = Op_createThreeMarker uid \<or> opn = Op_createThreeBarcodeMarker uid"
    if "exec opn s = Inr s3"
      and "map fst (patternMarkers s3) \<noteq> map fst (patternMarkers s) \<or>
           map fst (barcodeMarkers s3) \<noteq> map fst (barcodeMarkers s)"
    using that onGetMarker_pose_update[of _ s s3] process_pose_update[of _ s s3]
    by (cases opn) auto
  then show ?thesis
    using onGetMarker_pose_update[of mk s s'] process_pose_update[of frame s s''] by blast
qed

theorem frame_operations_keep_tables_witness:
  "\<exists>s' s''. onGetMarker \<lparr>idPatt = 5, idMatrix = -1\<rparr> demo_state = Inr s' \<and>
     process demo_frame demo_state = Inr s'' \<and>
     exec (Op_createThreeMarker 9) demo_state = Inr (snd (createThreeMarker 9 demo_state)) \<and>
     map fst (patternMarkers (snd (createThreeMarker 9 demo_state))) \<noteq> map fst (patternMarkers demo_state) \<and>
     patternMarkers s' = [(5, 0)] \<and> barcodeMarkers s' = [(7, 1)] \<and>
     patternMarkers s'' = [(5, 0)] \<and> barcodeMarkers s'' = [(7, 1)] \<and>
     heap s' 2 = heap demo_state 2 \<and> heap s'' 2 = heap demo_state 2"
proof -
  have m: "matrices_ok demo_state"
    using wf_demo_state by (simp add: wf_state_def)
  have l: "length (transformationMatrix demo_state) = 16"
    by (simp add: demo_state_fields length_identity_elements)
  from onGetMarker_heap[OF m l, of "\<lparr>idPatt = 5, idMatrix = -1\<rparr>"] obtain s' where
    a: "onGetMarker \<lparr>idPatt = 5, idMatrix = -1\<rparr> demo_state = Inr s'" by blast
  from process_effect[OF wf_demo_state poses_ok_demo_frame camera_ok_demo_state] obtain s'' where
    b: "process demo_frame demo_state = Inr s''" by blast
  have c: "exec (Op_createThreeMarker 9) demo_state = Inr (snd (createThreeMarker 9 demo_state))"
    by simp
  have d: "map fst (patternMarkers (snd (createThreeMarker 9 demo_state))) \<noteq> map fst (patternMarkers demo_state)"
    by (simp add: createThreeMarker_eq demo_state_fields)
  have r: "registered demo_state = [0, 1]"
    by (simp add: registered_def demo_state_fields)
  from frame_operations_keep_tables[where mk="\<lparr>idPatt = 5, idMatrix = -1\<rparr>" and s=demo_state
      and s'=s' and frame=demo_frame and s''=s'' and opn="Op_createThreeMarker 9"
      and ?s3.0="snd (createThreeMarker 9 demo_state)"] a b c d
  have "patternMarkers s' = [(5, 0)] \<and> barcodeMarkers s' = [(7, 1)] \<and>
     patternMarkers s'' = [(5, 0)] \<and> barcodeMarkers s'' = [(7, 1)] \<and>
     heap s' 2 = heap demo_state 2 \<and> heap s'' 2 = heap demo_state 2"
    by (simp add: demo_state_fields pose_update_only_def r)
  with a b c d show ?thesis by blast
qed

text \<open>
  Claim C7. For every \<open>markerUID\<close>, \<open>createThreeMarker(markerUID)\<close> stores a fresh
  Object3D with \<open>matrixAutoUpdate = false\<close> under that key in \<open>patternMarkers\<close>, returns
  that object and leaves \<open>barcodeMarkers\<close> as it was; \<open>createThreeBarcodeMarker\<close> does
  the same with the tables exchanged; and the clearing at the start of a frame resets the
  tracking state of the entries: every registered object is hidden, no entry is removed.
\<close>
theorem createThreeMarker_populates_one_table:
  assumes "wf_state s"
  shows "(case createThreeMarker markerUID s of (obj, s') \<Rightarrow>
            map_of (patternMarkers s') = (map_of (patternMarkers s))(markerUID \<mapsto> obj) \<and>
            barcodeMarkers s' = barcodeMarkers s \<and>
            heap s' obj = new_Object3D\<lparr>matrixAutoUpdate := False\<rparr> \<and>
            \<not> matrixAutoUpdate (heap s' obj) \<and>
            obj \<notin> set (registered s) \<and> obj = next_addr s \<and> obj < next_addr s' \<and>
            (\<forall>a. a \<noteq> obj \<longrightarrow> heap s' a = heap s a)) \<and>
         (case createThreeBarcodeMarker markerUID s of (obj, s') \<Rightarrow>
            map_of (barcodeMarkers s') = (map_of (barcodeMarkers s))(markerUID \<mapsto> obj) \<and>
            patternMarkers s' = patternMarkers s \<and>
            heap s' obj = new_Object3D\<lparr>matrixAutoUpdate := False\<rparr> \<and>
            \<not> matrixAutoUpdate (heap s' obj) \<and>
            obj \<notin> set (registered s) \<and> obj = next_addr s \<and> obj < next_addr s' \<and>
            (\<forall>a. a \<noteq> obj \<longrightarrow> heap s' a = heap s a)) \<and>
         (\<forall>obj \<in> set (registered s). \<not> visible (heap (hide_all s) obj)) \<and>
         patternMarkers (hide_all s) = patternMarkers s \<and>
         barcodeMarkers (hide_all s) = barcodeMarkers s"
  using wf_fresh[OF assms]
  by (simp add: createThreeMarker_eq createThreeBarcodeMarker_eq update_conv' hide_all_heap hide_all_fields)

theorem createThreeMarker_populates_one_table_witness:
  "wf_state demo_state \<and>
   createThreeMarker 9 demo_state =
     (2, demo_state\<lparr>heap := (heap demo_state)(2 := new_Object3D\<lparr>matrixAutoUpdate := False\<rparr>),
                   next_addr := 3, patternMarkers := [(5, 0), (9, 2)]\<rparr>) \<and>
   map_of (patternMarkers (snd (createThreeMarker 9 demo_state))) 9 = Some 2 \<and>
   barcodeMarkers (snd (createThreeMarker 9 demo_state)) = [(7, 1)] \<and>
   map_of (barcodeMarkers (snd (createThreeBarcodeMarker 9 demo_state))) 9 = Some 2 \<and>
   patternMarkers (snd (createThreeBarcodeMarker 9 demo_state)) = [(5, 0)]"
  using createThreeMarker_populates_one_table[OF wf_demo_state, of 9] wf_demo_state
  by (simp add: createThreeMarker_eq createThreeBarcodeMarker_eq demo_state_fields)

subsection \<open>Claims about registering a UID twice\<close>

lemma update_drops_old_value:
  assumes "distinct (map snd al)" and "map_of al k = Some v" and "v' \<noteq> v"
  shows "v \<notin> snd ` set (AList.update k v' al)"
  using assms
proof (induction al)
  case Nil
  then show ?case by simp
next
  case (Cons p al)
  obtain k0 v0 where p: "p = (k0, v0)" by (cases p)
  show ?case
  proof (cases "k0 = k")
    case True
    with Cons.prems p have "v0 = v" "v \<notin> snd ` set al" by auto
    with True p Cons.prems(3) show ?thesis by auto
  next
    case False
    with Cons.prems p have m: "map_of al k = Some v" by simp
    then have "v \<in> snd ` set al" by (force dest!: map_of_SomeD)
    with Cons.prems(1) p have "v0 \<noteq> v" by auto
    moreover have "v \<notin> snd ` set (AList.update k v' al)"
      using Cons.IH[OF _ m Cons.prems(3)] Cons.prems(1) by simp
    ultimately show ?thesis using False p by auto
  qed
qed

lemma second_pattern_registration:
  assumes wf: "wf_state s" and cam: "camera_ok s"
    and old: "map_of (patternMarkers s) uid = Some first"
    and cr: "createThreeMarker uid s = (second, s2)"
  shows "second \<noteq> first \<and> map_of (patternMarkers s2) uid = Some second \<and>
         first \<notin> set (registered s2) \<and>
         (\<forall>frame. poses_ok frame \<longrightarrow>
            (\<exists>s3. process frame s2 = Inr s3 \<and> heap s3 first = heap s2 first \<and>
               (visible (heap s3 second) \<longleftrightarrow> (\<exists>d \<in> set frame. idPatt (det_marker d) = uid)))) \<and>
         (\<forall>mk pose. idPatt mk = uid \<and> length pose = 16 \<longrightarrow>
            (\<exists>s3. onGetMarker mk (s2\<lparr>transformationMatrix := pose\<rparr>) = Inr s3 \<and>
               elements (matrix (heap s3 second)) = pose \<and> visible (heap s3 second) \<and>
               heap s3 first = heap s2 first))"
proof -
  have sec: "second = next_addr s"
    using cr by (simp add: createThreeMarker_eq)
  have s2: "s2 = snd (createThreeMarker uid s)"
    using cr by simp
  have wf2: "wf_state s2" unfolding s2 by (rule wf_state_createThreeMarker[OF wf])
  have cam2: "camera_ok s2" using cam by (simp add: s2 createThreeMarker_eq camera_ok_def)
  have P2: "patternMarkers s2 = AList.update uid second (patternMarkers s)"
    and B2: "barcodeMarkers s2 = barcodeMarkers s"
    by (simp_all add: s2 sec createThreeMarker_eq)
  have freg: "first \<in> set (registered s)"
    using old lookup_registered[of s uid first] by blast
  have ne: "second \<noteq> first"
    using wf_fresh[OF wf] freg sec by auto
  have look: "map_of (patternMarkers s2) uid = Some second"
    by (simp add: P2 update_conv')
  have d: "distinct (map snd (patternMarkers s))"
    "snd ` set (patternMarkers s) \<inter> snd ` set (barcodeMarkers s) = {}"
    using wf by (auto simp: wf_state_def registered_def)
  have "first \<in> snd ` set (patternMarkers s)"
    using old by (force dest!: map_of_SomeD)
  with d(2) have nb: "first \<notin> snd ` set (barcodeMarkers s)" by blast
  have np: "first \<notin> snd ` set (patternMarkers s2)"
    unfolding P2 by (rule update_drops_old_value[OF d(1) old ne])
  have nr: "first \<notin> set (registered s2)"
    using np nb by (simp add: registered_def B2)
  have mem: "(uid, second) \<in> set (patternMarkers s2)"
    using look by (rule map_of_SomeD)
  have frames: "\<exists>s3. process frame s2 = Inr s3 \<and> heap s3 first = heap s2 first \<and>
               (visible (heap s3 second) \<longleftrightarrow> (\<exists>d \<in> set frame. idPatt (det_marker d) = uid))"
    if poses: "poses_ok frame" for frame
  proof -
    from process_effect[OF wf2 poses cam2] obtain s1 s3 where
      p: "process frame s2 = Inr s3" and
      e: "s3 = s1\<lparr>camera_projectionMatrix := (camera_projectionMatrix s2)\<lparr>elements := cameraMatrix s2\<rparr>\<rparr>" and
      vp: "\<forall>(k, a) \<in> set (patternMarkers s2).
              visible (heap s1 a) \<longleftrightarrow> k \<in> set (map (idPatt \<circ> det_marker) frame)" and
      un: "\<forall>a. a \<notin> set (registered s2) \<longrightarrow> heap s1 a = heap s2 a"
      by blast
    have h: "heap s3 = heap s1" using e by simp
    have "visible (heap s1 second) \<longleftrightarrow> uid \<in> set (map (idPatt \<circ> det_marker) frame)"
      using vp mem by blast
    then have "visible (heap s3 second) \<longleftrightarrow> (\<exists>d \<in> set frame. idPatt (det_marker d) = uid)"
      unfolding h by (auto simp: image_iff)
    moreover have "heap s3 first = heap s2 first"
      unfolding h using un nr by simp
    ultimately show ?thesis using p by blast
  qed
  have single: "\<exists>s3. onGetMarker mk (s2\<lparr>transformationMatrix := pose\<rparr>) = Inr s3 \<and>
               elements (matrix (heap s3 second)) = pose \<and> visible (heap s3 second) \<and>
               heap s3 first = heap s2 first"
    if "idPatt mk = uid \<and> length pose = 16" for mk pose
  proof -
    from that have len: "length pose = 16" and key: "idPatt mk = uid" by simp_all
    from onGetMarker_step[OF wf2 len, of mk] obtain s3 where
      r: "onGetMarker mk (s2\<lparr>transformationMatrix := pose\<rparr>) = Inr s3" and
      h: "\<And>a. heap s3 a =
              (if map_of (patternMarkers s2) (idPatt mk) = Some a \<or>
                  map_of (barcodeMarkers s2) (idMatrix mk) = Some a
               then shown pose (heap s2 a) else heap s2 a)" by blast
    have 1: "heap s3 second = shown pose (heap s2 second)"
      unfolding h using look key by simp
    have "\<not> (map_of (patternMarkers s2) (idPatt mk) = Some first \<or>
                  map_of (barcodeMarkers s2) (idMatrix mk) = Some first)"
      using lookup_registered[of s2 "idPatt mk" first "idMatrix mk"] nr by blast
    then have 2: "heap s3 first = heap s2 first"
      unfolding h by simp
    from r 1 2 show ?thesis by (auto simp: shown_def)
  qed
  from ne look nr frames single show ?thesis by blast
qed

lemma second_barcode_registration:
  assumes wf: "wf_state s" and cam: "camera_ok s"
    and old: "map_of (barcodeMarkers s) uid = Some first"
    and cr: "createThreeBarcodeMarker uid s = (second, s2)"
  shows "second \<noteq> first \<and> map_of (barcodeMarkers s2) uid = Some second \<and>
         first \<notin> set (registered s2) \<and>
         (\<forall>frame. poses_ok frame \<longrightarrow>
            (\<exists>s3. process frame s2 = Inr s3 \<and> heap s3 first = heap s2 first \<and>
               (visible (heap s3 second) \<longleftrightarrow> (\<exists>d \<in> set frame. idMatrix (det_marker d) = uid)))) \<and>
         (\<forall>mk pose. idMatrix mk = uid \<and> length pose = 16 \<longrightarrow>
            (\<exists>s3. onGetMarker mk (s2\<lparr>transformationMatrix := pose\<rparr>) = Inr s3 \<and>
               elements (matrix (heap s3 second)) = pose \<and> visible (heap s3 second) \<and>
               heap s3 first = heap s2 first))"
proof -
  have sec: "second = next_addr s"
    using cr by (simp add: createThreeBarcodeMarker_eq)
  have s2: "s2 = snd (createThreeBarcodeMarker uid s)"
    using cr by simp
  have wf2: "wf_state s2" unfolding s2 by (rule wf_state_createThreeBarcodeMarker[OF wf])
  have cam2: "camera_ok s2" using cam by (simp add: s2 createThreeBarcodeMarker_eq camera_ok_def)
  have P2: "barcodeMarkers s2 = AList.update uid second (barcodeMarkers s)"
    and B2: "patternMarkers s2 = patternMarkers s"
    by (simp_all add: s2 sec createThreeBarcodeMarker_eq)
  have freg: "first \<in> set (registered s)"
    using old lookup_registered[of s _ first uid] by blast
  have ne: "second \<noteq> first"
    using wf_fresh[OF wf] freg sec by auto
  have look: "map_of (barcodeMarkers s2) uid = Some second"
    by (simp add: P2 update_conv')
  have d: "distinct (map snd (barcodeMarkers s))"
    "snd ` set (barcodeMarkers s) \<inter> snd ` set (patternMarkers s) = {}"
    using wf by (auto simp: wf_state_def registered_def)
  have "first \<in> snd ` set (barcodeMarkers s)"
    using old by (force dest!: map_of_SomeD)
  with d(2) have nb: "first \<notin> snd ` set (patternMarkers s)" by blast
  have np: "first \<notin> snd ` set (barcodeMarkers s2)"
    unfolding P2 by (rule update_drops_old_value[OF d(1) old ne])
  have nr: "first \<notin> set (registered s2)"
    using np nb by (simp add: registered_def B2)
  have mem: "(uid, second) \<in> set (barcodeMarkers s2)"
    using look by (rule map_of_SomeD)
  have frames: "\<exists>s3. process frame s2 = Inr s3 \<and> heap s3 first = heap s2 first \<and>
               (visible (heap s3 second) \<longleftrightarrow> (\<exists>d \<in> set frame. idMatrix (det_marker d) = uid))"
    if poses: "poses_ok frame" for frame
  proof -
    from process_effect[OF wf2 poses cam2] obtain s1 s3 where
      p: "process frame s2 = Inr s3" and
      e: "s3 = s1\<lparr>camera_projectionMatrix := (camera_projectionMatrix s2)\<lparr>elements := cameraMatrix s2\<rparr>\<rparr>" and
      vp: "\<forall>(k, a) \<in> set (barcodeMarkers s2).
              visible (heap s1 a) \<longleftrightarrow> k \<in> set (map (idMatrix \<circ> det_marker) frame)" and
      un: "\<forall>a. a \<notin> set (registered s2) \<longrightarrow> heap s1 a = heap s2 a"
      by blast
    have h: "heap s3 = heap s1" using e by simp
    have "visible (heap s1 second) \<longleftrightarrow> uid \<in> set (map (idMatrix \<circ> det_marker) frame)"
      using vp mem by blast
    then have "visible (heap s3 second) \<longleftrightarrow> (\<exists>d \<in> set frame. idMatrix (det_marker d) = uid)"
      unfolding h by (auto simp: image_iff)
    moreover have "heap s3 first = heap s2 first"
      unfolding h using un nr by simp
    ultimately show ?thesis using p by blast
  qed
  have single: "\<exists>s3. onGetMarker mk (s2\<lparr>transformationMatrix := pose\<rparr>) = Inr s3 \<and>
               elements (matrix (heap s3 second)) = pose \<and> visible (heap s3 second) \<and>
               heap s3 first = heap s2 first"
    if "idMatrix mk = uid \<and> length pose = 16" for mk pose
  proof -
    from that have len: "length pose = 16" and key: "idMatrix mk = uid" by simp_all
    from onGetMarker_step[OF wf2 len, of mk] obtain s3 where
      r: "onGetMarker mk (s2\<lparr>transformationMatrix := pose\<rparr>) = Inr s3" and
      h: "\<And>a. heap s3 a =
              (if map_of (patternMarkers s2) (idPatt mk) = Some a \<or>
                  map_of (barcodeMarkers s2) (idMatrix mk) = Some a
               then shown pose (heap s2 a) else heap s2 a)" by blast
    have 1: "heap s3 second = shown pose (heap s2 second)"
      unfolding h using look key by simp
    have "\<not> (map_of (patternMarkers s2) (idPatt mk) = Some first \<or>
                  map_of (barcodeMarkers s2) (idMatrix mk) = Some first)"
      using lookup_registered[of s2 "idPatt mk" first "idMatrix mk"] nr by blast
    then have 2: "heap s3 first = heap s2 first"
      unfolding h by simp
    from r 1 2 show ?thesis by (auto simp: shown_def)
  qed
  from ne look nr frames single show ?thesis by blast
qed



text \<open>
  Claim C9. Registering a UID that is already in a table replaces the entry: after the
  second call of \<open>createThreeMarker\<close> (or \<open>createThreeBarcodeMarker\<close>) the table maps the UID
  to the object the second call returned, and later reports for that UID set the pose of
  the second object and show it, and never touch the first.
\<close>
theorem second_registration_wins:
  assumes "wf_state s" and "camera_ok s"
  shows "(\<forall>first second s2.
            map_of (patternMarkers s) uid = Some first \<and> createThreeMarker uid s = (second, s2) \<longrightarrow>
            second \<noteq> first \<and> map_of (patternMarkers s2) uid = Some second \<and>
            first \<notin> set (registered s2) \<and>
            (\<forall>frame. poses_ok frame \<longrightarrow>
               (\<exists>s3. process frame s2 = Inr s3 \<and> heap s3 first = heap s2 first \<and>
                  (visible (heap s3 second) \<longleftrightarrow> (\<exists>d \<in> set frame. idPatt (det_marker d) = uid)))) \<and>
            (\<forall>mk pose. idPatt mk = uid \<and> length pose = 16 \<longrightarrow>
               (\<exists>s3. onGetMarker mk (s2\<lparr>transformationMatrix := pose\<rparr>) = Inr s3 \<and>
                  elements (matrix (heap s3 second)) = pose \<and> visible (heap s3 second) \<and>
                  heap s3 first = heap s2 first))) \<and>
         (\<forall>first second s2.
            map_of (barcodeMarkers s) uid = Some first \<and> createThreeBarcodeMarker uid s = (second, s2) \<longrightarrow>
            second \<noteq> first \<and> map_of (barcodeMarkers s2) uid = Some second \<and>
            first \<notin> set (registered s2) \<and>
            (\<forall>frame. poses_ok frame \<longrightarrow>
               (\<exists>s3. process frame s2 = Inr s3 \<and> heap s3 first = heap s2 first \<and>
                  (visible (heap s3 second) \<longleftrightarrow> (\<exists>d \<in> set frame. idMatrix (det_marker d) = uid)))) \<and>
            (\<forall>mk pose. idMatrix mk = uid \<and> length pose = 16 \<longrightarrow>
               (\<exists>s3. onGetMarker mk (s2\<lparr>transformationMatrix := pose\<rparr>) = Inr s3 \<and>
                  elements (matrix (heap s3 second)) = pose \<and> visible (heap s3 second) \<and>
                  heap s3 first = heap s2 first)))"
proof (intro conjI allI impI)
  fix first second s2
  assume a: "map_of (patternMarkers s) uid = Some first \<and> createThreeMarker uid s = (second, s2)"
  note r = second_pattern_registration[OF assms conjunct1[OF a] conjunct2[OF a]]
  show "second \<noteq> first" "map_of (patternMarkers s2) uid = Some second"
    "first \<notin> set (registered s2)" using r by blast+
  show "\<exists>s3. process frame s2 = Inr s3 \<and> heap s3 first = heap s2 first \<and>
          (visible (heap s3 second) \<longleftrightarrow> (\<exists>d \<in> set frame. idPatt (det_marker d) = uid))"
    if "poses_ok frame" for frame using r that by blast
  show "\<exists>s3. onGetMarker mk (s2\<lparr>transformationMatrix := pose\<rparr>) = Inr s3 \<and>
          elements (matrix (heap s3 second)) = pose \<and> visible (heap s3 second) \<and>
          heap s3 first = heap s2 first"
    if "idPatt mk = uid \<and> length pose = 16" for mk pose using r that by blast
next
  fix first second s2
  assume a: "map_of (barcodeMarkers s) uid = Some first \<and> createThreeBarcodeMarker uid s = (second, s2)"
  note r = second_barcode_registration[OF assms conjunct1[OF a] conjunct2[OF a]]
  show "second \<noteq> first" "map_of (barcodeMarkers s2) uid = Some second"
    "first \<notin> set (registered s2)" using r by blast+
  show "\<exists>s3. process frame s2 = Inr s3 \<and> heap s3 first = heap s2 first \<and>
          (visible (heap s3 second) \<longleftrightarrow> (\<exists>d \<in> set frame. idMatrix (det_marker d) = uid))"
    if "poses_ok frame" for frame using r that by blast
  show "\<exists>s3. onGetMarker mk (s2\<lparr>transformationMatrix := pose\<rparr>) = Inr s3 \<and>
          elements (matrix (heap s3 second)) = pose \<and> visible (heap s3 second) \<and>
          heap s3 first = heap s2 first"
    if "idMatrix mk = uid \<and> length pose = 16" for mk pose using r that by blast
qed

theorem second_registration_wins_witness:
  "wf_state demo_state \<and> camera_ok demo_state \<and> poses_ok demo_frame \<and>
   map_of (patternMarkers demo_state) 5 = Some 0 \<and>
   createThreeMarker 5 demo_state = (2, snd (createThreeMarker 5 demo_state)) \<and>
   map_of (patternMarkers (snd (createThreeMarker 5 demo_state))) 5 = Some 2 \<and>
   (\<exists>s3. process demo_frame (snd (createThreeMarker 5 demo_state)) = Inr s3 \<and>
      visible (heap s3 2) \<and> \<not> visible (heap s3 0)) \<and>
   map_of (barcodeMarkers demo_state) 7 = Some 1 \<and>
   createThreeBarcodeMarker 7 demo_state = (2, snd (createThreeBarcodeMarker 7 demo_state)) \<and>
   map_of (barcodeMarkers (snd (createThreeBarcodeMarker 7 demo_state))) 7 = Some 2 \<and>
   (\<exists>s3. process demo_frame (snd (createThreeBarcodeMarker 7 demo_state)) = Inr s3 \<and>
      \<not> visible (heap s3 2) \<and> \<not> visible (heap s3 1))"
proof -
  let ?p = "snd (createThreeMarker 5 demo_state)"
  let ?b = "snd (createThreeBarcodeMarker 7 demo_state)"
  have p1: "map_of (patternMarkers demo_state) 5 = Some 0"
    and b1: "map_of (barcodeMarkers demo_state) 7 = Some 1"
    by (simp_all add: demo_state_fields)
  have p2: "createThreeMarker 5 demo_state = (2, ?p)"
    and b2: "createThreeBarcodeMarker 7 demo_state = (2, ?b)"
    by (simp_all add: createThreeMarker_eq createThreeBarcodeMarker_eq demo_state_fields)
  have hp: "\<not> visible (heap ?p 0)" and hb: "\<not> visible (heap ?b 1)"
    by (simp_all add: createThreeMarker_eq createThreeBarcodeMarker_eq demo_state_fields demo_state_heap)
  have fr: "(\<exists>d \<in> set demo_frame. idPatt (det_marker d) = 5)"
    "\<not> (\<exists>d \<in> set demo_frame. idMatrix (det_marker d) = 7)"
    by (simp_all add: demo_frame_def)
  note t5 = second_registration_wins[OF wf_demo_state camera_ok_demo_state, of 5]
  note t7 = second_registration_wins[OF wf_demo_state camera_ok_demo_state, of 7]
  from t5 p1 p2 have P: "map_of (patternMarkers ?p) 5 = Some 2 \<and>
      (\<exists>s3. process demo_frame ?p = Inr s3 \<and> heap s3 0 = heap ?p 0 \<and>
         (visible (heap s3 2) \<longleftrightarrow> (\<exists>d \<in> set demo_frame. idPatt (det_marker d) = 5)))"
    using poses_ok_demo_frame by blast
  from t7 b1 b2 have B: "map_of (barcodeMarkers ?b) 7 = Some 2 \<and>
      (\<exists>s3. process demo_frame ?b = Inr s3 \<and> heap s3 1 = heap ?b 1 \<and>
         (visible (heap s3 2) \<longleftrightarrow> (\<exists>d \<in> set demo_frame. idMatrix (det_marker d) = 7)))"
    using poses_ok_demo_frame by blast
  from P fr(1) hp have P': "\<exists>s3. process demo_frame ?p = Inr s3 \<and> visible (heap s3 2) \<and> \<not> visible (heap s3 0)"
    by auto
  from B fr(2) hb have B': "\<exists>s3. process demo_frame ?b = Inr s3 \<and> \<not> visible (heap s3 2) \<and> \<not> visible (heap s3 1)"
    by auto
  from P B P' B' p1 p2 b1 b2 wf_demo_state camera_ok_demo_state poses_ok_demo_frame
  show ?thesis by blast
qed

subsection \<open>Initialisation\<close>

lemma run_append: "run (xs @ ys) s = run ys (run xs s)"
  by (induction xs arbitrary: s) auto

lemma completion_call_onError: "completion (call_onError err s) = completion s"
  by (cases "onError s") (simp_all add: call_onError_def completion_def)

lemma completion_success: "completion (success s) = completion s"
  by (simp add: success_def completion_def)

lemma completion_completeInit: "completion (completeInit s) = completion s @ completeInit_actions s"
  by (simp add: completeInit_def completion_def completeInit_actions_def)

lemma completion_initProgress:
  "completion (initProgress s) =
     completion s @ (if initWaitCount s = 1 then completeInit_actions s else [])"
  by (simp add: initProgress_def Let_def completion_completeInit completeInit_actions_def)
     (simp add: completion_def)

lemma fields_call_onError:
  "initWaitCount (call_onError err s) = initWaitCount s"
  "gum_callbacks (call_onError err s) = gum_callbacks s"
  "loadedmetadata_listener (call_onError err s) = loadedmetadata_listener s"
  "onReady_callback (call_onError err s) = onReady_callback s"
  "videoWidth (call_onError err s) = videoWidth s"
  "videoHeight (call_onError err s) = videoHeight s"
  by (cases "onError s"; simp add: call_onError_def)+

lemma fields_initProgress:
  "initWaitCount (initProgress s) = initWaitCount s - 1"
  "gum_callbacks (initProgress s) = gum_callbacks s"
  "loadedmetadata_listener (initProgress s) = loadedmetadata_listener s"
  "onReady_callback (initProgress s) = onReady_callback s"
  "videoWidth (initProgress s) = videoWidth s"
  "videoHeight (initProgress s) = videoHeight s"
  by (simp_all add: initProgress_def Let_def completeInit_def)

lemma fields_success:
  "initWaitCount (success s) = initWaitCount s"
  "gum_callbacks (success s) = gum_callbacks s"
  "loadedmetadata_listener (success s)"
  "onReady_callback (success s)"
  "videoWidth (success s) = videoWidth s"
  "videoHeight (success s) = videoHeight s"
  by (simp_all add: success_def)

text \<open>Before the stream is granted, events leave the handshake alone.\<close>

lemma run_before_grant:
  assumes "\<not> loadedmetadata_listener s" "\<not> onReady_callback s" "GumSuccess \<notin> set es"
  shows "completion (run es s) = completion s \<and> initWaitCount (run es s) = initWaitCount s \<and>
         gum_callbacks (run es s) = gum_callbacks s \<and>
         \<not> loadedmetadata_listener (run es s) \<and> \<not> onReady_callback (run es s) \<and>
         videoWidth (run es s) = videoWidth s \<and> videoHeight (run es s) = videoHeight s"
  using assms
proof (induction es arbitrary: s)
  case Nil
  then show ?case by simp
next
  case (Cons e es)
  have step: "completion (fire e s) = completion s \<and> initWaitCount (fire e s) = initWaitCount s \<and>
         gum_callbacks (fire e s) = gum_callbacks s \<and>
         \<not> loadedmetadata_listener (fire e s) \<and> \<not> onReady_callback (fire e s) \<and>
         videoWidth (fire e s) = videoWidth s \<and> videoHeight (fire e s) = videoHeight s"
    using Cons.prems by (cases e) (simp_all add: completion_call_onError fields_call_onError)
  from Cons.prems have "GumSuccess \<notin> set es" by simp
  with Cons.IH[of "fire e s"] step show ?case by simp
qed

text \<open>
  Once \<open>initProgress\<close> is registered for both events, each of them decrements the
  counter, and \<open>completeInit\<close> runs when the counter reaches zero.
\<close>

lemma run_after_grant:
  assumes "loadedmetadata_listener s" "onReady_callback s"
  shows "completion (run es s) =
           completion s @
             (if 0 < initWaitCount s \<and> initWaitCount s \<le> int (initProgress_calls es)
              then completeInit_actions s else [])"
  using assms
proof (induction es arbitrary: s)
  case Nil
  then show ?case by (auto simp: initProgress_calls_def)
next
  case (Cons e es)
  have hs: "e = LoadedMetadata \<or> e = TrackerReady \<Longrightarrow> fire e s = initProgress s"
    using Cons.prems by auto
  have ca: "completeInit_actions (fire e s) = completeInit_actions s"
    by (cases e) (simp_all add: completeInit_actions_def fields_call_onError fields_initProgress fields_success)
  have fl: "loadedmetadata_listener (fire e s)" "onReady_callback (fire e s)"
    using Cons.prems
    by (cases e; simp add: fields_call_onError fields_initProgress fields_success)+
  note ih = Cons.IH[OF fl]
  show ?case
  proof (cases "e = LoadedMetadata \<or> e = TrackerReady")
    case True
    then have c: "initProgress_calls (e # es) = Suc (initProgress_calls es)"
      by (auto simp: initProgress_calls_def)
    show ?thesis
      using ih True
      by (simp add: hs c ca[unfolded hs[OF True]] completion_initProgress fields_initProgress)
  next
    case False
    then have c: "initProgress_calls (e # es) = initProgress_calls es"
      by (auto simp: initProgress_calls_def)
    have "completion (fire e s) = completion s \<and> initWaitCount (fire e s) = initWaitCount s"
      using False
      by (cases e) (simp_all add: completion_call_onError completion_success fields_call_onError fields_success)
    then show ?thesis
      using ih by (simp add: c ca)
  qed
qed

lemma after_grant_split:
  "GumSuccess \<in> set es \<Longrightarrow> \<exists>pre. es = pre @ GumSuccess # after_grant es \<and> GumSuccess \<notin> set pre"
proof (induction es)
  case Nil
  then show ?case by simp
next
  case (Cons e es)
  show ?case
  proof (cases "e = GumSuccess")
    case True
    then have "e # es = [] @ GumSuccess # after_grant (e # es) \<and> GumSuccess \<notin> set []" by simp
    then show ?thesis by blast
  next
    case False
    with Cons obtain pre where "es = pre @ GumSuccess # after_grant es" "GumSuccess \<notin> set pre"
      by auto
    with False have "e # es = (e # pre) @ GumSuccess # after_grant (e # es) \<and> GumSuccess \<notin> set (e # pre)"
      by simp
    then show ?thesis by blast
  qed
qed

lemma after_grant_none: "GumSuccess \<notin> set es \<Longrightarrow> after_grant es = []"
  by (induction es) auto

lemma distinct_after_grant: "distinct es \<Longrightarrow> distinct (after_grant es)"
  by (induction es) auto

lemma initProgress_calls_distinct:
  "distinct es \<Longrightarrow>
   initProgress_calls es =
     (if LoadedMetadata \<in> set es then 1 else 0) + (if TrackerReady \<in> set es then 1 else 0)"
  by (induction es) (auto simp: initProgress_calls_def)

lemma getUserMediaThreeScene_granted:
  assumes "gum_of n = Some f"
  shows "getUserMediaThreeScene n w h oe vw vh =
     \<lparr>nav = n\<lparr>getUserMedia := Some f\<rparr>,
      onError = (case oe of None \<Rightarrow> Default_onError | Some x \<Rightarrow> x),
      videoWidth = vw, videoHeight = vh, initWaitCount = 2, gum_callbacks = True,
      loadedmetadata_listener = False, onReady_callback = False,
      log = [Artoolkit_init ''../../builds'' ''../../bin/Data/camera_para.dat'',
             CreateElement ''video'',
             Navigator_getUserMedia f \<lparr>audio = False, maxWidth = w, maxHeight = h\<rparr>]\<rparr>"
  using assms by (simp add: getUserMediaThreeScene_def gum_of_def Let_def)

lemma getUserMediaThreeScene_no_gum:
  assumes "gum_of n = None"
  shows "getUserMediaThreeScene n w h oe vw vh =
     call_onError []
       \<lparr>nav = n\<lparr>getUserMedia := None\<rparr>,
        onError = (case oe of None \<Rightarrow> Default_onError | Some x \<Rightarrow> x),
        videoWidth = vw, videoHeight = vh, initWaitCount = 2, gum_callbacks = False,
        loadedmetadata_listener = False, onReady_callback = False,
        log = [Artoolkit_init ''../../builds'' ''../../bin/Data/camera_para.dat'',
               CreateElement ''video'']\<rparr>"
  using assms by (simp add: getUserMediaThreeScene_def gum_of_def Let_def)

lemma onSuccess_calls_completion:
  "onSuccess_calls s = length (filter is_OnSuccess (completion s))"
proof -
  have "filter is_OnSuccess (filter of_completeInit l) = filter is_OnSuccess l" for l
  proof (induction l)
    case Nil
    show ?case by simp
  next
    case (Cons a l)
    then show ?case by (cases a) simp_all
  qed
  then show ?thesis by (simp add: onSuccess_calls_def completion_def)
qed

text \<open>
  What the counter does, whatever the events are: \<open>completeInit\<close> runs at the second call
  of \<open>initProgress\<close> and at no other.
\<close>

lemma handshake_counts_calls:
  assumes "gum_of n = Some f"
  shows "completion (run es (getUserMediaThreeScene n w h oe vw vh)) =
     (if 2 \<le> initProgress_calls (after_grant es)
      then [Artoolkit_setup vw vh, Artoolkit_createThreeScene, OnSuccess (createThreeScene Video)]
      else [])"
proof -
  let ?s0 = "getUserMediaThreeScene n w h oe vw vh"
  have s0: "\<not> loadedmetadata_listener ?s0" "\<not> onReady_callback ?s0" "gum_callbacks ?s0"
    "initWaitCount ?s0 = 2" "completion ?s0 = []" "videoWidth ?s0 = vw" "videoHeight ?s0 = vh"
    by (simp_all add: getUserMediaThreeScene_granted[OF assms] completion_def)
  show ?thesis
  proof (cases "GumSuccess \<in> set es")
    case False
    from run_before_grant[OF s0(1,2) False] s0 after_grant_none[OF False]
    show ?thesis by (simp add: initProgress_calls_def)
  next
    case True
    from after_grant_split[OF True] obtain pre where
      es: "es = pre @ GumSuccess # after_grant es" and pre: "GumSuccess \<notin> set pre" by blast
    let ?s1 = "run pre ?s0"
    from run_before_grant[OF s0(1,2) pre] s0 have
      s1: "completion ?s1 = []" "initWaitCount ?s1 = 2" "gum_callbacks ?s1"
        "videoWidth ?s1 = vw" "videoHeight ?s1 = vh" by simp_all
    let ?s2 = "success ?s1"
    have f: "fire GumSuccess ?s1 = ?s2" using s1(3) by simp
    have s2: "loadedmetadata_listener ?s2" "onReady_callback ?s2" "completion ?s2 = []"
      "initWaitCount ?s2 = 2" "completeInit_actions ?s2 =
        [Artoolkit_setup vw vh, Artoolkit_createThreeScene, OnSuccess (createThreeScene Video)]"
      using s1 by (simp_all add: fields_success completion_success completeInit_actions_def)
    have "run (pre @ GumSuccess # after_grant es) ?s0 = run (after_grant es) ?s2"
      unfolding run_append run.simps f ..
    then have "run es ?s0 = run (after_grant es) ?s2"
      using es by simp
    then show ?thesis
      using run_after_grant[OF s2(1,2), of "after_grant es"] s2 by simp
  qed
qed

text \<open>
  Claim C1, as amended. \<open>completeInit\<close>, which calls \<open>artoolkit.setup\<close>,
  \<open>artoolkit.createThreeScene\<close> and then \<open>onSuccess\<close>, runs at the second call of
  \<open>initProgress\<close> and at no other, whichever of the two events made the calls, so
  \<open>onSuccess\<close> is called at most once in any run \<open>es'\<close>. When each event is delivered at
  most once (\<open>distinct es\<close>), that is a handshake of two events: at every moment
  \<open>take k es\<close> of the run, \<open>completeInit\<close> has run exactly once if the \<open>loadedmetadata\<close>
  event of the video element and the callback given to \<open>artoolkit.onReady\<close> have both
  fired, and \<open>onSuccess\<close> has not been called before that.
\<close>
theorem handshake_completes_once_after_both_events:
  assumes "gum_of n = Some f" and "distinct es"
  shows "completion (run (take k es) (getUserMediaThreeScene n w h oe vw vh)) =
     (if LoadedMetadata \<in> set (after_grant (take k es)) \<and> TrackerReady \<in> set (after_grant (take k es))
      then [Artoolkit_setup vw vh, Artoolkit_createThreeScene, OnSuccess (createThreeScene Video)]
      else []) \<and>
     completion (run es' (getUserMediaThreeScene n w h oe vw vh)) =
     (if 2 \<le> initProgress_calls (after_grant es')
      then [Artoolkit_setup vw vh, Artoolkit_createThreeScene, OnSuccess (createThreeScene Video)]
      else []) \<and>
     onSuccess_calls (run es' (getUserMediaThreeScene n w h oe vw vh)) \<le> 1"
proof -
  have "distinct (after_grant (take k es))"
    using assms(2) by (intro distinct_after_grant distinct_take)
  from initProgress_calls_distinct[OF this]
  have "completion (run (take k es) (getUserMediaThreeScene n w h oe vw vh)) =
     (if LoadedMetadata \<in> set (after_grant (take k es)) \<and> TrackerReady \<in> set (after_grant (take k es))
      then [Artoolkit_setup vw vh, Artoolkit_createThreeScene, OnSuccess (createThreeScene Video)]
      else [])"
    unfolding handshake_counts_calls[OF assms(1)] by auto
  moreover have "onSuccess_calls (run es' (getUserMediaThreeScene n w h oe vw vh)) \<le> 1"
    unfolding onSuccess_calls_completion handshake_counts_calls[OF assms(1)] by simp
  ultimately show ?thesis
    using handshake_counts_calls[OF assms(1), of es' w h oe vw vh] by blast
qed

theorem handshake_completes_once_after_both_events_witness:
  "gum_of demo_navigator = Some 3 \<and> distinct [GumSuccess, TrackerReady, LoadedMetadata] \<and>
   completion (run (take 2 [GumSuccess, TrackerReady, LoadedMetadata])
     (getUserMediaThreeScene demo_navigator 640 480 None 320 240)) = [] \<and>
   completion (run (take 3 [GumSuccess, TrackerReady, LoadedMetadata])
     (getUserMediaThreeScene demo_navigator 640 480 None 320 240)) =
     [Artoolkit_setup 320 240, Artoolkit_createThreeScene, OnSuccess (createThreeScene Video)]"
proof -
  have g: "gum_of demo_navigator = Some 3"
    by (simp add: gum_of_def demo_navigator_def js_or_def)
  have d: "distinct [GumSuccess, TrackerReady, LoadedMetadata]" by simp
  note t = handshake_completes_once_after_both_events[OF g d, of _ 640 480 None 320 240 "[]"]
  from t[of 2] t[of 3] g d show ?thesis by simp
qed

text \<open>
  Claim C1 as first stated puts no condition on how often an event is delivered, and
  says that \<open>onSuccess\<close> is never called before both events have fired. The counter
  does not tell the two events apart: when the video element fires \<open>loadedmetadata\<close>
  twice, \<open>completeInit\<close> runs and \<open>onSuccess\<close> is called although the callback given to
  \<open>artoolkit.onReady\<close> has not fired.
\<close>
theorem handshake_two_loadedmetadata_counterexample:
  "gum_of demo_navigator = Some 3 \<and>
   TrackerReady \<notin> set [GumSuccess, LoadedMetadata, LoadedMetadata] \<and>
   completion (run [GumSuccess, LoadedMetadata, LoadedMetadata]
     (getUserMediaThreeScene demo_navigator 640 480 None 320 240)) =
     [Artoolkit_setup 320 240, Artoolkit_createThreeScene, OnSuccess (createThreeScene Video)] \<and>
   onSuccess_calls (run [GumSuccess, LoadedMetadata, LoadedMetadata]
     (getUserMediaThreeScene demo_navigator 640 480 None 320 240)) = 1"
  by (simp add: gum_of_def demo_navigator_def js_or_def getUserMediaThreeScene_def Let_def
      success_def initProgress_def completeInit_def completion_def onSuccess_calls_def)

lemma run_ignored:
  assumes "\<not> gum_callbacks s" "\<not> loadedmetadata_listener s" "\<not> onReady_callback s"
  shows "run es s = s"
proof (induction es)
  case Nil
  show ?case by simp
next
  case (Cons e es)
  have "fire e s = s" using assms by (cases e) simp_all
  with Cons show ?case by simp
qed

lemma gum_of_None:
  "gum_of n = None \<longleftrightarrow>
     getUserMedia n = None \<and> webkitGetUserMedia n = None \<and> mozGetUserMedia n = None \<and>
     msGetUserMedia n = None"
  by (auto simp: gum_of_def js_or_def split: option.splits)

text \<open>
  Claim C6. When the browser has no \<open>getUserMedia\<close>, neither plain nor with a vendor
  prefix, \<open>artoolkit.getUserMediaThreeScene\<close> calls \<open>onError\<close> with the empty string and
  never calls \<open>onSuccess\<close>, whatever happens later; when the caller passes no \<open>onError\<close>,
  the logging function of the file has taken its place before the call is made.
\<close>
theorem no_getUserMedia_calls_onError:
  assumes "getUserMedia n = None" and "webkitGetUserMedia n = None"
    and "mozGetUserMedia n = None" and "msGetUserMedia n = None"
  shows "log (getUserMediaThreeScene n w h (Some User_onError) vw vh) =
           [Artoolkit_init ''../../builds'' ''../../bin/Data/camera_para.dat'',
            CreateElement ''video'', OnError []] \<and>
         onError (getUserMediaThreeScene n w h None vw vh) = Default_onError \<and>
         log (getUserMediaThreeScene n w h None vw vh) =
           [Artoolkit_init ''../../builds'' ''../../bin/Data/camera_para.dat'',
            CreateElement ''video'',
            Console_log ''ERROR: artoolkit.getUserMediaThreeScene'', Console_log []] \<and>
         (\<forall>oe es. run es (getUserMediaThreeScene n w h oe vw vh) = getUserMediaThreeScene n w h oe vw vh \<and>
                  onSuccess_calls (run es (getUserMediaThreeScene n w h oe vw vh)) = 0)"
proof -
  have g: "gum_of n = None" using assms by (simp add: gum_of_None)
  note e = getUserMediaThreeScene_no_gum[OF g]
  have 1: "log (getUserMediaThreeScene n w h (Some User_onError) vw vh) =
           [Artoolkit_init ''../../builds'' ''../../bin/Data/camera_para.dat'',
            CreateElement ''video'', OnError []]"
    by (simp add: e call_onError_def)
  have 2: "onError (getUserMediaThreeScene n w h None vw vh) = Default_onError"
    by (simp add: e call_onError_def)
  have 3: "log (getUserMediaThreeScene n w h None vw vh) =
           [Artoolkit_init ''../../builds'' ''../../bin/Data/camera_para.dat'',
            CreateElement ''video'',
            Console_log ''ERROR: artoolkit.getUserMediaThreeScene'', Console_log []]"
    by (simp add: e call_onError_def)
  have 4: "run es (getUserMediaThreeScene n w h oe vw vh) = getUserMediaThreeScene n w h oe vw vh \<and>
           onSuccess_calls (run es (getUserMediaThreeScene n w h oe vw vh)) = 0" for oe es
  proof -
    let ?s = "getUserMediaThreeScene n w h oe vw vh"
    have fl: "\<not> gum_callbacks ?s" "\<not> loadedmetadata_listener ?s" "\<not> onReady_callback ?s"
      unfolding e by (simp_all add: fields_call_onError)
    have "onSuccess_calls ?s = 0"
      unfolding e onSuccess_calls_def
      by (cases "case oe of None \<Rightarrow> Default_onError | Some x \<Rightarrow> x") (simp_all add: call_onError_def)
    then show ?thesis using run_ignored[OF fl] by simp
  qed
  from 1 2 3 4 show ?thesis by blast
qed

theorem no_getUserMedia_calls_onError_witness:
  "getUserMedia no_navigator = None \<and> webkitGetUserMedia no_navigator = None \<and>
   mozGetUserMedia no_navigator = None \<and> msGetUserMedia no_navigator = None \<and>
   log (getUserMediaThreeScene no_navigator 640 480 (Some User_onError) 0 0) =
     [Artoolkit_init ''../../builds'' ''../../bin/Data/camera_para.dat'',
      CreateElement ''video'', OnError []] \<and>
   onSuccess_calls (run [GumSuccess, LoadedMetadata, TrackerReady]
     (getUserMediaThreeScene no_navigator 640 480 None 0 0)) = 0"
proof -
  have h: "getUserMedia no_navigator = None" "webkitGetUserMedia no_navigator = None"
    "mozGetUserMedia no_navigator = None" "msGetUserMedia no_navigator = None"
    by (simp_all add: no_navigator_def)
  from no_getUserMedia_calls_onError[OF h, of 640 480 0 0] h show ?thesis by blast
qed

end
